theory Spec2Isabelle
  imports Complex_Main
begin

section \<open>Python values used by the two nodes\<close>

text \<open>
  The exceptions that the modelled code can raise.  \<open>SerialException\<close> carries the text of
  the exception, which the nodes copy into their log lines.
\<close>

datatype exn =
    SerialException string
  | KeyError string
  | ValueError
  | IndexError
  | OverflowError
  | UnicodeDecodeError
  | KeyboardInterrupt

subsection \<open>Integers as text\<close>

text \<open>\<open>f'{n}'\<close> for a Python int: decimal digits, a minus sign in front of a negative one.\<close>

definition digit_char :: "nat \<Rightarrow> char" where
  "digit_char d = ''0123456789'' ! d"

fun digits :: "nat \<Rightarrow> string" where
  "digits n = (if n < 10 then [digit_char n] else digits (n div 10) @ [digit_char (n mod 10)])"

declare digits.simps [simp del]

definition py_str_int :: "int \<Rightarrow> string" where
  "py_str_int v = (if v < 0 then CHR ''-'' # digits (nat (- v)) else digits (nat v))"

text \<open>
  \<open>int(s)\<close> for a Python str, as far as the keyboard loop can reach it: the argument is a
  key for which \<open>key in '1234567'\<close> holds, so it is a run of digits or the empty string
  (which \<open>sys.stdin.read\<close> gives at end of input); \<open>int\<close> raises ValueError on the
  empty string.  Signs, blanks and underscores, which \<open>int\<close> accepts too, cannot occur
  there and are not modelled: such a text raises here.
\<close>

definition is_digit :: "char \<Rightarrow> bool" where
  "is_digit c = (c \<in> set ''0123456789'')"

definition digit_val :: "char \<Rightarrow> int" where
  "digit_val c = int (of_char c) - 48"

definition py_int_of_str :: "string \<Rightarrow> exn + int" where
  "py_int_of_str s =
     (if s \<noteq> [] \<and> list_all is_digit s
      then Inr (foldl (\<lambda>a c. 10 * a + digit_val c) 0 s)
      else Inl ValueError)"

text \<open>\<open>xs[i]\<close> for a Python list: a negative index counts from the end.\<close>

definition py_list_get :: "'a list \<Rightarrow> int \<Rightarrow> exn + 'a" where
  "py_list_get xs i =
     (if 0 \<le> i \<and> i < int (length xs) then Inr (xs ! nat i)
      else if i < 0 \<and> - int (length xs) \<le> i then Inr (xs ! nat (int (length xs) + i))
      else Inl IndexError)"

text \<open>\<open>a in b\<close> for two Python strs: \<open>a\<close> occurs in \<open>b\<close> as a contiguous substring.\<close>

fun starts_with :: "string \<Rightarrow> string \<Rightarrow> bool" where
  "starts_with [] b = True"
| "starts_with (x # a) [] = False"
| "starts_with (x # a) (y # b) = (x = y \<and> starts_with a b)"

fun py_in :: "string \<Rightarrow> string \<Rightarrow> bool" where
  "py_in a [] = (a = [])"
| "py_in a (y # b) = (starts_with a (y # b) \<or> py_in a b)"

text \<open>\<open>s.strip()\<close>: the whitespace characters of Python that fit in one byte.\<close>

definition py_space :: "char \<Rightarrow> bool" where
  "py_space c = (c \<in> set [CHR 0x09, CHR 0x0A, CHR 0x0B, CHR 0x0C, CHR 0x0D,
                            CHR 0x1C, CHR 0x1D, CHR 0x1E, CHR 0x1F, CHR 0x20])"

definition py_strip :: "string \<Rightarrow> string" where
  "py_strip s = rev (dropWhile py_space (rev (dropWhile py_space s)))"

text \<open>
  The text of a command on the wire: \<open>f'{command_char}{position}\n'\<close> in the keyboard
  node, \<open>f'Y{linear}\n'\<close> and \<open>f'X{angular}\n'\<close> in the bridge.
\<close>

definition command_text :: "string \<Rightarrow> int \<Rightarrow> string" where
  "command_text symbol v = symbol @ py_str_int v @ ''\<newline>''"

subsection \<open>Floats\<close>

text \<open>
  A Python float is an IEEE 754 binary64 value: a finite one is a rational number, and
  there are the two infinities and NaN.  The sign of zero is not kept: nothing that the
  bridge computes from a float (\<open>int(x)\<close> after a product) depends on it.
\<close>

datatype pyfloat = Finite rat | PosInf | NegInf | NaN

text \<open>The number of bits of a positive int (Python's \<open>int.bit_length\<close>).\<close>

function bit_length :: "int \<Rightarrow> int" where
  "bit_length n = (if n \<le> 0 then 0 else 1 + bit_length (n div 2))"
  by pat_completeness auto
termination
  by (relation "measure nat") auto

declare bit_length.simps [simp del]

definition pow2 :: "int \<Rightarrow> rat" where
  "pow2 k = (if 0 \<le> k then 2 ^ nat k else 1 / 2 ^ nat (- k))"

text \<open>The exponent of the leading bit of a positive rational: \<open>\<lfloor>log\<^sub>2 x\<rfloor>\<close>.\<close>

definition ilog2 :: "rat \<Rightarrow> int" where
  "ilog2 x =
     (let (n, d) = quotient_of x;
          k = bit_length n - bit_length d
      in if pow2 k \<le> x then k else k - 1)"

definition round_half_even :: "rat \<Rightarrow> int" where
  "round_half_even x =
     (let f = \<lfloor>x\<rfloor>; r = x - of_int f
      in if r < 1 / 2 then f else if 1 / 2 < r then f + 1 else if even f then f else f + 1)"

text \<open>
  Rounding of an exact result to binary64, to nearest with ties to even: 53 significant
  bits, the exponent of the last bit not below -1074, and infinity from \<open>2^1024\<close> on.
\<close>

definition round_binary64 :: "rat \<Rightarrow> pyfloat" where
  "round_binary64 x =
     (if x = 0 then Finite 0
      else let a = \<bar>x\<bar>;
               e = max (ilog2 a - 52) (- 1074);
               y = of_int (round_half_even (a / pow2 e)) * pow2 e
           in if 2 ^ 1024 \<le> y then (if 0 < x then PosInf else NegInf)
              else Finite (if 0 < x then y else - y))"

text \<open>The conversion of a Python int to float (as \<open>float * int\<close> does with its int).\<close>

definition py_float_of_int :: "int \<Rightarrow> exn + pyfloat" where
  "py_float_of_int n =
     (case round_binary64 (of_int n) of Finite q \<Rightarrow> Inr (Finite q) | _ \<Rightarrow> Inl OverflowError)"

fun float_mul :: "pyfloat \<Rightarrow> pyfloat \<Rightarrow> pyfloat" where
  "float_mul NaN y = NaN"
| "float_mul x NaN = NaN"
| "float_mul (Finite a) (Finite b) = round_binary64 (a * b)"
| "float_mul (Finite a) PosInf = (if a = 0 then NaN else if 0 < a then PosInf else NegInf)"
| "float_mul (Finite a) NegInf = (if a = 0 then NaN else if 0 < a then NegInf else PosInf)"
| "float_mul PosInf (Finite b) = (if b = 0 then NaN else if 0 < b then PosInf else NegInf)"
| "float_mul NegInf (Finite b) = (if b = 0 then NaN else if 0 < b then NegInf else PosInf)"
| "float_mul PosInf PosInf = PosInf"
| "float_mul PosInf NegInf = NegInf"
| "float_mul NegInf PosInf = NegInf"
| "float_mul NegInf NegInf = PosInf"

text \<open>\<open>x * n\<close> for a float \<open>x\<close> and an int \<open>n\<close>.\<close>

definition py_mul_float_int :: "pyfloat \<Rightarrow> int \<Rightarrow> exn + pyfloat" where
  "py_mul_float_int x n =
     (case py_float_of_int n of Inl e \<Rightarrow> Inl e | Inr y \<Rightarrow> Inr (float_mul x y))"

text \<open>\<open>int(x)\<close> for a float: truncation toward zero; infinities and NaN raise.\<close>

definition trunc_toward_zero :: "rat \<Rightarrow> int" where
  "trunc_toward_zero q = (if 0 \<le> q then \<lfloor>q\<rfloor> else \<lceil>q\<rceil>)"

definition py_int_of_float :: "pyfloat \<Rightarrow> exn + int" where
  "py_int_of_float x =
     (case x of
        Finite q \<Rightarrow> Inr (trunc_toward_zero q)
      | PosInf \<Rightarrow> Inl OverflowError
      | NegInf \<Rightarrow> Inl OverflowError
      | NaN \<Rightarrow> Inl ValueError)"

subsection \<open>Dictionaries\<close>

text \<open>
  A Python dict keeps its keys in insertion order, and the keyboard node relies on it
  (\<open>list(self.positions.keys())\<close> is indexed by the selection key): a dict is a list of
  pairs.  Storing under a key that is present replaces the value in place; a new key goes
  to the end.
\<close>

type_synonym ('k, 'v) dict = "('k \<times> 'v) list"

fun dict_set :: "('k, 'v) dict \<Rightarrow> 'k \<Rightarrow> 'v \<Rightarrow> ('k, 'v) dict" where
  "dict_set [] k v = [(k, v)]"
| "dict_set ((k', v') # d) k v = (if k' = k then (k, v) # d else (k', v') # dict_set d k v)"

definition dict_get :: "(string, 'v) dict \<Rightarrow> string \<Rightarrow> exn + 'v" where
  "dict_get d k = (case map_of d k of None \<Rightarrow> Inl (KeyError k) | Some v \<Rightarrow> Inr v)"

definition dict_keys :: "('k, 'v) dict \<Rightarrow> 'k list" where
  "dict_keys d = map fst d"

section \<open>Effects\<close>

text \<open>
  What a node does to the outside is recorded in a trace.  A call on the serial port either
  returns (\<open>Did\<close>) or raises \<open>serial.SerialException\<close> (\<open>Failed\<close>); \<open>time.sleep\<close> is
  recorded with its length in milliseconds.
\<close>

datatype serial_op =
    OpenPort string int
  | ResetInputBuffer
  | ResetOutputBuffer
  | Write string
  | Flush
  | InWaiting
  | Readline
  | ClosePort

datatype level = Debug | Info | Warn | Error

datatype printed = Instructions | Status | Exiting | ErrorText exn

datatype event =
    Did serial_op
  | Failed serial_op
  | Sleep nat
  | Log level string
  | Print printed
  | SaveTerminal
  | RestoreTerminal
  | RclpyInit
  | RclpyShutdown
  | SuperDestroyNode

text \<open>
  The behaviour of the port and of the device behind it is a parameter: the calls on the
  port are numbered from 0 in the order in which the node makes them, and for the call
  with number \<open>n\<close>
  \<^item> \<open>fails n\<close> is the text of the SerialException that it raises, if it raises;
  \<^item> \<open>in_waiting_at n\<close> is what \<open>in_waiting\<close> gives;
  \<^item> \<open>readline_at n\<close> is the line that \<open>readline\<close> gives, as the text that
    \<open>bytes.decode\<close> makes of it, or \<open>None\<close> if the bytes are not valid UTF-8.
\<close>

record link =
  fails :: "nat \<Rightarrow> string option"
  in_waiting_at :: "nat \<Rightarrow> nat"
  readline_at :: "nat \<Rightarrow> string option"

record io =
  trace :: "event list"
  calls :: nat

text \<open>
  A method is a function from the state of its object to a result, which is the value it
  returns or the exception it raises, and the state it leaves.
\<close>

type_synonym ('s, 'a) prog = "'s \<Rightarrow> (exn + 'a) \<times> 's"

definition ret :: "'a \<Rightarrow> ('s, 'a) prog" where
  "ret x = (\<lambda>s. (Inr x, s))"

definition raise :: "exn \<Rightarrow> ('s, 'a) prog" where
  "raise e = (\<lambda>s. (Inl e, s))"

definition bind :: "('s, 'a) prog \<Rightarrow> ('a \<Rightarrow> ('s, 'b) prog) \<Rightarrow> ('s, 'b) prog" where
  "bind m f = (\<lambda>s. case m s of (Inl e, s') \<Rightarrow> (Inl e, s') | (Inr x, s') \<Rightarrow> f x s')"

text \<open>A block of statements.\<close>

fun block :: "('s, unit) prog list \<Rightarrow> ('s, unit) prog" where
  "block [] = ret ()"
| "block (m # ms) = bind m (\<lambda>_. block ms)"

text \<open>\<open>for x in xs: body\<close>.\<close>

fun for_each :: "'a list \<Rightarrow> ('a \<Rightarrow> ('s, unit) prog) \<Rightarrow> ('s, unit) prog" where
  "for_each [] body = ret ()"
| "for_each (x # xs) body = bind (body x) (\<lambda>_. for_each xs body)"

text \<open>
  \<open>try: m  except ...: h\<close>.  The handler gets the exception and decides by its class;
  for a class that no \<open>except\<close> clause names it raises the exception again.
\<close>

definition try_except :: "('s, 'a) prog \<Rightarrow> (exn \<Rightarrow> ('s, 'a) prog) \<Rightarrow> ('s, 'a) prog" where
  "try_except m h = (\<lambda>s. case m s of (Inl e, s') \<Rightarrow> h e s' | (Inr x, s') \<Rightarrow> (Inr x, s'))"

text \<open>
  \<open>try: m  finally: f\<close>: \<open>f\<close> runs in either case; an exception of \<open>f\<close> replaces the
  result of \<open>m\<close>.
\<close>

definition try_finally :: "('s, 'a) prog \<Rightarrow> ('s, unit) prog \<Rightarrow> ('s, 'a) prog" where
  "try_finally m f =
     (\<lambda>s. case m s of (r, s') \<Rightarrow> (case f s' of (Inl e, s'') \<Rightarrow> (Inl e, s'') | (Inr _, s'') \<Rightarrow> (r, s'')))"

definition lift :: "exn + 'a \<Rightarrow> ('s, 'a) prog" where
  "lift r = (\<lambda>s. (r, s))"

definition emit :: "event \<Rightarrow> ('a io_scheme, unit) prog" where
  "emit ev = (\<lambda>s. (Inr (), s\<lparr>trace := trace s @ [ev]\<rparr>))"

definition sleep :: "nat \<Rightarrow> ('a io_scheme, unit) prog" where
  "sleep ms = emit (Sleep ms)"

definition log_line :: "level \<Rightarrow> string \<Rightarrow> ('a io_scheme, unit) prog" where
  "log_line lvl text = emit (Log lvl text)"

text \<open>A call on the serial port: it takes the next number, and raises if the link says so.\<close>

definition serial_call :: "link \<Rightarrow> serial_op \<Rightarrow> ('a io_scheme, nat) prog" where
  "serial_call lk op =
     (\<lambda>s. let n = calls s in
           case fails lk n of
             Some text \<Rightarrow> (Inl (SerialException text),
                           s\<lparr>trace := trace s @ [Failed op], calls := n + 1\<rparr>)
           | None \<Rightarrow> (Inr n, s\<lparr>trace := trace s @ [Did op], calls := n + 1\<rparr>))"

definition serial :: "link \<Rightarrow> serial_op \<Rightarrow> ('a io_scheme, unit) prog" where
  "serial lk op = bind (serial_call lk op) (\<lambda>_. ret ())"

definition serial_in_waiting :: "link \<Rightarrow> ('a io_scheme, nat) prog" where
  "serial_in_waiting lk = bind (serial_call lk InWaiting) (\<lambda>n. ret (in_waiting_at lk n))"

text \<open>\<open>self.serial.readline().decode()\<close>.\<close>

definition serial_readline_decode :: "link \<Rightarrow> ('a io_scheme, string) prog" where
  "serial_readline_decode lk =
     bind (serial_call lk Readline)
       (\<lambda>n. case readline_at lk n of None \<Rightarrow> raise UnicodeDecodeError | Some text \<Rightarrow> ret text)"

text \<open>Reading and changing the fields of \<open>self\<close>.\<close>

definition get_field :: "('s \<Rightarrow> 'a) \<Rightarrow> ('s, 'a) prog" where
  "get_field f = (\<lambda>s. (Inr (f s), s))"

definition modify :: "('s \<Rightarrow> 's) \<Rightarrow> ('s, unit) prog" where
  "modify f = (\<lambda>s. (Inr (), f s))"

section \<open>The bridge node: \<open>ros2_arduino_bridge.py\<close>\<close>

text \<open>The ROS parameters of a node, and the two fields of a Twist message that are read.\<close>

record params =
  serial_port :: string
  baud_rate :: int
  max_speed_param :: int

record twist =
  linear_x :: pyfloat
  angular_z :: pyfloat

record bridge = io +
  max_speed :: int

definition bridge_new :: bridge where
  "bridge_new = \<lparr>trace = [], calls = 0, max_speed = 0\<rparr>"

definition ArduinoBridge_init :: "link \<Rightarrow> params \<Rightarrow> (bridge, unit) prog" where
  "ArduinoBridge_init lk p =
     block [
       modify (\<lambda>s. s\<lparr>max_speed := max_speed_param p\<rparr>),
       try_except
         (block [
            serial lk (OpenPort (serial_port p) (baud_rate p)),
            sleep 2000,
            log_line Info (''Connected to Arduino on '' @ serial_port p)])
         (\<lambda>e. case e of
                SerialException text \<Rightarrow>
                  bind (log_line Error (''Failed to connect to Arduino: '' @ text)) (\<lambda>_. raise e)
              | _ \<Rightarrow> raise e),
       log_line Info ''Arduino bridge node started'']"

definition cmd_vel_callback :: "link \<Rightarrow> twist \<Rightarrow> (bridge, unit) prog" where
  "cmd_vel_callback lk msg =
     bind (get_field max_speed) (\<lambda>ms.
     bind (lift (py_mul_float_int (linear_x msg) ms)) (\<lambda>lx.
     bind (lift (py_int_of_float lx)) (\<lambda>linear.
     bind (lift (py_mul_float_int (angular_z msg) ms)) (\<lambda>az.
     bind (lift (py_int_of_float az)) (\<lambda>angular.
       let linear = max (- 100) (min 100 linear);
           angular = max (- 100) (min 100 angular)
       in try_except
            (block [
               serial lk (Write (command_text ''Y'' linear)),
               sleep 10,
               serial lk (Write (command_text ''X'' angular)),
               log_line Debug (''Sent: Y'' @ py_str_int linear @ '', X'' @ py_str_int angular)])
            (\<lambda>e. case e of
                   SerialException text \<Rightarrow> log_line Error (''Serial write error: '' @ text)
                 | _ \<Rightarrow> raise e))))))"

text \<open>The bare \<open>except:\<close> of \<open>destroy_node\<close> takes every exception and does nothing.\<close>

definition ArduinoBridge_destroy_node :: "link \<Rightarrow> (bridge, unit) prog" where
  "ArduinoBridge_destroy_node lk =
     block [
       try_except
         (block [
            serial lk (Write ''Y0\<newline>''),
            serial lk (Write ''X0\<newline>''),
            serial lk ClosePort])
         (\<lambda>e. ret ()),
       emit SuperDestroyNode]"

text \<open>
  \<open>rclpy.spin(node)\<close> runs the callback on each message that arrives.  An exception of
  the callback leaves \<open>spin\<close>; an interrupt signal raises KeyboardInterrupt in it; and
  it returns when the context is shut down from outside, which is the end of the list.
\<close>

datatype spin_input = Deliver twist | Sigint

fun spin :: "link \<Rightarrow> spin_input list \<Rightarrow> (bridge, unit) prog" where
  "spin lk [] = ret ()"
| "spin lk (Deliver msg # rest) = bind (cmd_vel_callback lk msg) (\<lambda>_. spin lk rest)"
| "spin lk (Sigint # rest) = raise KeyboardInterrupt"

text \<open>
  \<open>main\<close> of the bridge.  \<open>except Exception\<close> takes every exception of the model but
  KeyboardInterrupt, which has a clause of its own.  What \<open>rclpy.ok()\<close> gives in the
  \<open>finally\<close> clause is a parameter.
\<close>

definition bridge_main :: "link \<Rightarrow> params \<Rightarrow> spin_input list \<Rightarrow> bool \<Rightarrow> (bridge, unit) prog" where
  "bridge_main lk p inputs rclpy_ok =
     block [
       emit RclpyInit,
       try_finally
         (try_except
            (block [ArduinoBridge_init lk p, spin lk inputs])
            (\<lambda>e. case e of
                   KeyboardInterrupt \<Rightarrow> ret ()
                 | _ \<Rightarrow> emit (Print (ErrorText e))))
         (if rclpy_ok then emit RclpyShutdown else ret ())]"

section \<open>The keyboard node: \<open>servo_control_ui.py\<close>\<close>

record ui = io +
  positions :: "(string, int) dict"
  servo_commands :: "(string, string) dict"
  current_servo :: string
  step_size :: int

definition ui_new :: ui where
  "ui_new = \<lparr>trace = [], calls = 0, positions = [], servo_commands = [],
             current_servo = [], step_size = 0\<rparr>"

definition test_connection :: "link \<Rightarrow> (ui, unit) prog" where
  "test_connection lk =
     block [
       log_line Info ''Testing Arduino connection...'',
       serial lk (Write ''G50\<newline>''),
       serial lk Flush,
       sleep 200,
       bind (serial_in_waiting lk) (\<lambda>n.
         if n \<noteq> 0
         then bind (serial_readline_decode lk) (\<lambda>line.
                log_line Info (''Arduino echo: '' @ py_strip line))
         else log_line Warn ''No response from Arduino - check connection!'')]"

definition print_instructions :: "(ui, unit) prog" where
  "print_instructions = emit (Print Instructions)"

text \<open>
  \<open>print_status\<close> reads \<open>self.positions[self.current_servo]\<close> for its second line; the
  text that it prints is not modelled.
\<close>

definition print_status :: "(ui, unit) prog" where
  "print_status =
     bind (get_field (\<lambda>s. dict_get (positions s) (current_servo s))) (\<lambda>r.
     bind (lift r) (\<lambda>_. emit (Print Status)))"

definition ServoKeyboard_init :: "link \<Rightarrow> params \<Rightarrow> (ui, unit) prog" where
  "ServoKeyboard_init lk p =
     block [
       try_except
         (block [
            serial lk (OpenPort (serial_port p) (baud_rate p)),
            sleep 2000,
            serial lk ResetInputBuffer,
            serial lk ResetOutputBuffer,
            log_line Info (''Connected to Arduino on '' @ serial_port p)])
         (\<lambda>e. case e of
                SerialException text \<Rightarrow>
                  bind (log_line Error (''Failed to connect to Arduino: '' @ text)) (\<lambda>_. raise e)
              | _ \<Rightarrow> raise e),
       modify (\<lambda>s. s\<lparr>positions :=
         [(''head_rotation'', 50),
          (''neck_top'', 50),
          (''neck_bottom'', 50),
          (''eye_right'', 50),
          (''eye_left'', 50),
          (''arm_left'', 50),
          (''arm_right'', 50)]\<rparr>),
       modify (\<lambda>s. s\<lparr>servo_commands :=
         [(''head_rotation'', ''G''),
          (''neck_top'', ''T''),
          (''neck_bottom'', ''B''),
          (''eye_right'', ''U''),
          (''eye_left'', ''E''),
          (''arm_left'', ''L''),
          (''arm_right'', ''R'')]\<rparr>),
       modify (\<lambda>s. s\<lparr>current_servo := ''head_rotation''\<rparr>),
       modify (\<lambda>s. s\<lparr>step_size := 5\<rparr>),
       print_instructions,
       emit SaveTerminal,
       test_connection lk]"

definition send_servo_command :: "link \<Rightarrow> string \<Rightarrow> (ui, unit) prog" where
  "send_servo_command lk servo_name =
     bind (get_field (\<lambda>s. dict_get (servo_commands s) servo_name)) (\<lambda>r.
     bind (lift r) (\<lambda>command_char.
     bind (get_field (\<lambda>s. dict_get (positions s) servo_name)) (\<lambda>r.
     bind (lift r) (\<lambda>position.
       let command = command_text command_char position
       in try_except
            (block [
               serial lk ResetInputBuffer,
               log_line Info (''Sending: '' @ py_strip command),
               serial lk (Write command),
               serial lk Flush,
               sleep 50,
               bind (serial_in_waiting lk) (\<lambda>n.
                 if n \<noteq> 0
                 then bind (serial_readline_decode lk) (\<lambda>line.
                        log_line Info (''Arduino: '' @ py_strip line))
                 else ret ()),
               log_line Info (servo_name @ '': '' @ py_str_int position @ ''%'')])
            (\<lambda>e. case e of
                   SerialException text \<Rightarrow> log_line Error (''Serial error: '' @ text)
                 | _ \<Rightarrow> raise e)))))"

text \<open>\<open>self.positions[servo] = v\<close>.\<close>

definition set_position :: "string \<Rightarrow> int \<Rightarrow> (ui, unit) prog" where
  "set_position servo v = modify (\<lambda>s. s\<lparr>positions := dict_set (positions s) servo v\<rparr>)"

definition center_all_servos :: "link \<Rightarrow> (ui, unit) prog" where
  "center_all_servos lk =
     block [
       bind (get_field (\<lambda>s. dict_keys (positions s))) (\<lambda>keys.
         for_each keys (\<lambda>servo.
           block [
             set_position servo 50,
             send_servo_command lk servo,
             sleep 150])),
       log_line Info ''All servos centered'']"

definition home_positions :: "(string, int) dict" where
  "home_positions =
     [(''head_rotation'', 50),
      (''neck_top'', 80),
      (''neck_bottom'', 20),
      (''eye_right'', 40),
      (''eye_left'', 40),
      (''arm_left'', 50),
      (''arm_right'', 50)]"

definition home_position :: "link \<Rightarrow> (ui, unit) prog" where
  "home_position lk =
     block [
       for_each home_positions (\<lambda>(servo, pos).
         block [
           set_position servo pos,
           send_servo_command lk servo,
           sleep 150]),
       log_line Info ''Moved to home position'']"

text \<open>
  One turn of the loop of \<open>run\<close> on the key that \<open>get_key\<close> gave: the key as a str, one
  character, or ESC with the two characters after it, or the empty str at the end of the
  input.  The result says whether the loop goes on.
\<close>

datatype flow = Continue | Break

text \<open>\<open>self.positions[self.current_servo] = f(self.positions[self.current_servo])\<close>.\<close>

definition update_current :: "(ui \<Rightarrow> int \<Rightarrow> int) \<Rightarrow> (ui, unit) prog" where
  "update_current f =
     bind (get_field (\<lambda>s. dict_get (positions s) (current_servo s))) (\<lambda>r.
     bind (lift r) (\<lambda>v.
     bind (get_field (\<lambda>s. (current_servo s, f s v))) (\<lambda>(servo, v').
       set_position servo v')))"

definition send_current :: "link \<Rightarrow> (ui, unit) prog" where
  "send_current lk = bind (get_field current_servo) (send_servo_command lk)"

definition handle_key :: "link \<Rightarrow> string \<Rightarrow> (ui, flow) prog" where
  "handle_key lk key =
     (if py_in key ''1234567'' then
        bind (get_field (\<lambda>s. dict_keys (positions s))) (\<lambda>servo_list.
        bind (lift (py_int_of_str key)) (\<lambda>i.
        bind (lift (py_list_get servo_list (i - 1))) (\<lambda>servo.
        bind (modify (\<lambda>s. s\<lparr>current_servo := servo\<rparr>)) (\<lambda>_.
        bind print_status (\<lambda>_. ret Continue)))))
      else if key = ''w'' then
        bind (update_current (\<lambda>s v. min 100 (v + step_size s))) (\<lambda>_.
        bind (send_current lk) (\<lambda>_.
        bind print_status (\<lambda>_. ret Continue)))
      else if key = ''s'' then
        bind (update_current (\<lambda>s v. max 0 (v - step_size s))) (\<lambda>_.
        bind (send_current lk) (\<lambda>_.
        bind print_status (\<lambda>_. ret Continue)))
      else if key \<in> set [''+'', ''='', '']''] then
        bind (update_current (\<lambda>s v. min 100 (v + 1))) (\<lambda>_.
        bind (send_current lk) (\<lambda>_.
        bind print_status (\<lambda>_. ret Continue)))
      else if key \<in> set [''-'', ''_'', ''[''] then
        bind (update_current (\<lambda>s v. max 0 (v - 1))) (\<lambda>_.
        bind (send_current lk) (\<lambda>_.
        bind print_status (\<lambda>_. ret Continue)))
      else if key = ''0'' then
        bind (center_all_servos lk) (\<lambda>_.
        bind print_status (\<lambda>_. ret Continue))
      else if key = ''h'' then
        bind (home_position lk) (\<lambda>_.
        bind print_status (\<lambda>_. ret Continue))
      else if key = ''r'' then
        bind (bind (get_field current_servo) (\<lambda>servo. set_position servo 50)) (\<lambda>_.
        bind (send_current lk) (\<lambda>_.
        bind print_status (\<lambda>_. ret Continue)))
      else if key = ''?'' then
        bind print_instructions (\<lambda>_.
        bind print_status (\<lambda>_. ret Continue))
      else if key \<in> set [''q'', ''Q'', [CHR 0x1B]] then
        bind (emit (Print Exiting)) (\<lambda>_. ret Break)
      else ret Continue)"

text \<open>
  The loop of \<open>run\<close> on the keys that arrive.  An interrupt signal raises
  KeyboardInterrupt.  At the end of the input \<open>get_key\<close> gives the empty str, on which the
  turn raises ValueError (\<open>'' in '1234567'\<close> holds and \<open>int('')\<close> raises), so the loop
  ends there.
\<close>

datatype key_input = Key string | CtrlC

fun run_loop :: "link \<Rightarrow> key_input list \<Rightarrow> (ui, unit) prog" where
  "run_loop lk [] = bind (handle_key lk []) (\<lambda>_. ret ())"
| "run_loop lk (Key key # rest) =
     bind (handle_key lk key) (\<lambda>f. case f of Break \<Rightarrow> ret () | Continue \<Rightarrow> run_loop lk rest)"
| "run_loop lk (CtrlC # rest) = raise KeyboardInterrupt"

definition run :: "link \<Rightarrow> key_input list \<Rightarrow> (ui, unit) prog" where
  "run lk inputs =
     block [
       print_status,
       try_finally
         (try_except (run_loop lk inputs)
            (\<lambda>e. case e of
                   KeyboardInterrupt \<Rightarrow> emit (Print Exiting)
                 | _ \<Rightarrow> raise e))
         (block [emit RestoreTerminal, serial lk ClosePort])]"

section \<open>Notions used in the statements\<close>

text \<open>The texts that a node handed to \<open>serial.write\<close>, in order, whether the call returned or raised.\<close>

fun written :: "event list \<Rightarrow> string list" where
  "written [] = []"
| "written (Did (Write b) # evs) = b # written evs"
| "written (Failed (Write b) # evs) = b # written evs"
| "written (ev # evs) = written evs"

text \<open>The calls on the port that raised, and the calls that read from it.\<close>

fun is_failed :: "event \<Rightarrow> bool" where
  "is_failed (Failed op) = True"
| "is_failed ev = False"

fun is_read :: "event \<Rightarrow> bool" where
  "is_read (Did InWaiting) = True"
| "is_read (Failed InWaiting) = True"
| "is_read (Did Readline) = True"
| "is_read (Failed Readline) = True"
| "is_read ev = False"

fun is_log :: "event \<Rightarrow> bool" where
  "is_log (Log lvl text) = True"
| "is_log ev = False"

text \<open>
  The reference decoder of the wire format \<open><symbol><integer><newline>\<close> of the
  specification: one character, an optional minus sign, at least one decimal digit, one
  newline.
\<close>

definition ref_parse_nat :: "string \<Rightarrow> int option" where
  "ref_parse_nat ds =
     (if ds \<noteq> [] \<and> list_all is_digit ds
      then Some (foldl (\<lambda>a c. 10 * a + digit_val c) 0 ds)
      else None)"

definition ref_decode :: "string \<Rightarrow> (char \<times> int) option" where
  "ref_decode wire =
     (case wire of
        [] \<Rightarrow> None
      | symbol # rest \<Rightarrow>
          if rest = [] \<or> last rest \<noteq> CHR 0x0A then None
          else let body = butlast rest
               in if body \<noteq> [] \<and> hd body = CHR ''-''
                  then map_option (\<lambda>n. (symbol, - n)) (ref_parse_nat (tl body))
                  else map_option (\<lambda>n. (symbol, n)) (ref_parse_nat body))"

text \<open>The names of the seven servos, in the order in which \<open>__init__\<close> declares them.\<close>

definition servo_names :: "string list" where
  "servo_names =
     [''head_rotation'', ''neck_top'', ''neck_bottom'', ''eye_right'', ''eye_left'',
      ''arm_left'', ''arm_right'']"

text \<open>
  The states of the keyboard node between two turns of its loop: the state that a
  successful \<open>__init__\<close> leaves, and from such a state the one after \<open>print_status\<close>
  and the one after a turn of the loop that goes on.
\<close>

inductive reachable :: "link \<Rightarrow> ui \<Rightarrow> bool" for lk :: link where
  after_init: "ServoKeyboard_init lk p ui_new = (Inr (), s) \<Longrightarrow> reachable lk s"
| after_status: "reachable lk s \<Longrightarrow> print_status s = (Inr (), s') \<Longrightarrow> reachable lk s'"
| after_key: "reachable lk s \<Longrightarrow> handle_key lk key s = (Inr Continue, s') \<Longrightarrow> reachable lk s'"

text \<open>What holds in every such state.\<close>

definition ui_inv :: "ui \<Rightarrow> bool" where
  "ui_inv s =
     (dict_keys (positions s) = servo_names \<and>
      servo_commands s = zip servo_names [''G'', ''T'', ''B'', ''U'', ''E'', ''L'', ''R''] \<and>
      current_servo s \<in> set servo_names \<and>
      step_size s = 5 \<and>
      list_all (\<lambda>v. 0 \<le> v \<and> v \<le> 100) (map snd (positions s)))"

text \<open>Concrete links, parameters and messages for the examples.\<close>

definition link_up :: link where
  "link_up = \<lparr>fails = (\<lambda>n. None), in_waiting_at = (\<lambda>n. 0), readline_at = (\<lambda>n. Some [])\<rparr>"

text \<open>A link on which the call with number \<open>k\<close> raises, and every other call returns.\<close>

definition link_down_at :: "nat \<Rightarrow> link" where
  "link_down_at k =
     \<lparr>fails = (\<lambda>n. if n = k then Some ''write failed'' else None),
      in_waiting_at = (\<lambda>n. 0), readline_at = (\<lambda>n. Some [])\<rparr>"

definition usb0 :: params where
  "usb0 = \<lparr>serial_port = ''/dev/ttyUSB0'', baud_rate = 115200, max_speed_param = 100\<rparr>"

text \<open>The state of the keyboard node after \<open>__init__\<close> on the link that never fails.\<close>

definition ui_started :: ui where
  "ui_started = snd (ServoKeyboard_init link_up usb0 ui_new)"

text \<open>A run of events in which a delay comes right after every write that returned.\<close>

fun each_write_then_sleep :: "event list \<Rightarrow> bool" where
  "each_write_then_sleep [] = True"
| "each_write_then_sleep (ev # evs) =
     (case ev of
        Did (Write b) \<Rightarrow>
          (case evs of Sleep ms # rest \<Rightarrow> each_write_then_sleep rest | _ \<Rightarrow> False)
      | _ \<Rightarrow> each_write_then_sleep evs)"

fun is_reset :: "event \<Rightarrow> bool" where
  "is_reset (Did ResetInputBuffer) = True"
| "is_reset (Did ResetOutputBuffer) = True"
| "is_reset ev = False"

text \<open>The \<open>try\<close> statement of \<open>cmd_vel_callback\<close>, for the two ints after the clamp.\<close>

definition send_drive :: "link \<Rightarrow> int \<Rightarrow> int \<Rightarrow> (bridge, unit) prog" where
  "send_drive lk l a =
     try_except
       (block [
          serial lk (Write (command_text ''Y'' l)),
          sleep 10,
          serial lk (Write (command_text ''X'' a)),
          log_line Debug (''Sent: Y'' @ py_str_int l @ '', X'' @ py_str_int a)])
       (\<lambda>e. case e of
              SerialException text \<Rightarrow> log_line Error (''Serial write error: '' @ text)
            | _ \<Rightarrow> raise e)"

text \<open>Two Twist messages: full speed ahead, and half speed back with a half turn.\<close>

definition ahead :: twist where
  "ahead = \<lparr>linear_x = Finite 1, angular_z = Finite 0\<rparr>"

definition back_and_turn :: twist where
  "back_and_turn = \<lparr>linear_x = Finite (- 1 / 2), angular_z = Finite (1 / 2)\<rparr>"

text \<open>A message outside the documented range: five times ahead, three times the turn back.\<close>

definition too_fast :: twist where
  "too_fast = \<lparr>linear_x = Finite 5, angular_z = Finite (- 3)\<rparr>"

text \<open>
  A method of which every run only adds events to the trace, and only events with the
  property \<open>P\<close>.
\<close>

definition emits :: "(event \<Rightarrow> bool) \<Rightarrow> ('a io_scheme, 'b) prog \<Rightarrow> bool" where
  "emits P m = (\<forall>s. \<exists>evs. trace (snd (m s)) = trace s @ evs \<and> list_all P evs)"

text \<open>What the bridge never does: read from the port, reset a buffer, close the port.\<close>

definition bridge_event :: "event \<Rightarrow> bool" where
  "bridge_event ev =
     (\<not> is_read ev \<and> \<not> is_reset ev \<and> ev \<noteq> Did ClosePort \<and> ev \<noteq> Failed ClosePort)"

text \<open>A state after more events and more calls on the port, all other fields as they were.\<close>

definition advance :: "event list \<Rightarrow> nat \<Rightarrow> ui \<Rightarrow> ui" where
  "advance evs k s = s\<lparr>trace := trace s @ evs, calls := calls s + k\<rparr>"

text \<open>
  What \<open>send_servo_command\<close> does for a servo with command character \<open>c\<close> and position
  \<open>v\<close> when the next call on the port has the number \<open>n\<close>: its result, the events, and the
  number of calls on the port.
\<close>

definition send_outcome ::
  "link \<Rightarrow> nat \<Rightarrow> string \<Rightarrow> string \<Rightarrow> int \<Rightarrow> (exn + unit) \<times> event list \<times> nat" where
  "send_outcome lk n servo_name c v =
     (let command = command_text c v;
          sending = Log Info (''Sending: '' @ py_strip command);
          sent = Log Info (servo_name @ '': '' @ py_str_int v @ ''%'');
          failed = (\<lambda>evs why k. (Inr (), evs @ [Log Error (''Serial error: '' @ why)], k))
      in case fails lk n of
           Some why \<Rightarrow> failed [Failed ResetInputBuffer] why 1
         | None \<Rightarrow>
        (case fails lk (n + 1) of
           Some why \<Rightarrow> failed [Did ResetInputBuffer, sending, Failed (Write command)] why 2
         | None \<Rightarrow>
        (case fails lk (n + 2) of
           Some why \<Rightarrow>
             failed [Did ResetInputBuffer, sending, Did (Write command), Failed Flush] why 3
         | None \<Rightarrow>
        (case fails lk (n + 3) of
           Some why \<Rightarrow>
             failed [Did ResetInputBuffer, sending, Did (Write command), Did Flush, Sleep 50,
                     Failed InWaiting] why 4
         | None \<Rightarrow>
        (if in_waiting_at lk (n + 3) = 0
         then (Inr (),
               [Did ResetInputBuffer, sending, Did (Write command), Did Flush, Sleep 50,
                Did InWaiting, sent], 4)
         else
        (case fails lk (n + 4) of
           Some why \<Rightarrow>
             failed [Did ResetInputBuffer, sending, Did (Write command), Did Flush, Sleep 50,
                     Did InWaiting, Failed Readline] why 5
         | None \<Rightarrow>
        (case readline_at lk (n + 4) of
           None \<Rightarrow>
             (Inl UnicodeDecodeError,
              [Did ResetInputBuffer, sending, Did (Write command), Did Flush, Sleep 50,
               Did InWaiting, Did Readline], 5)
         | Some line \<Rightarrow>
             (Inr (),
              [Did ResetInputBuffer, sending, Did (Write command), Did Flush, Sleep 50,
               Did InWaiting, Did Readline, Log Info (''Arduino: '' @ py_strip line), sent],
              5))))))))"

text \<open>
  The three statements that the branches for the keys \<open>w\<close>, \<open>s\<close>, \<open>+\<close> and \<open>-\<close> of the loop
  share, for the new position \<open>f\<close>.
\<close>

definition adjust :: "link \<Rightarrow> (ui \<Rightarrow> int \<Rightarrow> int) \<Rightarrow> (ui, flow) prog" where
  "adjust lk f =
     bind (update_current f) (\<lambda>_.
     bind (send_current lk) (\<lambda>_.
     bind print_status (\<lambda>_. ret Continue)))"

text \<open>The body of the loops of \<open>center_all_servos\<close> and \<open>home_position\<close>.\<close>

definition preset_step :: "link \<Rightarrow> string \<Rightarrow> int \<Rightarrow> (ui, unit) prog" where
  "preset_step lk servo pos =
     block [set_position servo pos, send_servo_command lk servo, sleep 150]"

text \<open>The first statement of \<open>__init__\<close> of the keyboard node.\<close>

definition connect :: "link \<Rightarrow> params \<Rightarrow> (ui, unit) prog" where
  "connect lk p =
     try_except
       (block [
          serial lk (OpenPort (serial_port p) (baud_rate p)),
          sleep 2000,
          serial lk ResetInputBuffer,
          serial lk ResetOutputBuffer,
          log_line Info (''Connected to Arduino on '' @ serial_port p)])
       (\<lambda>e. case e of
              SerialException text \<Rightarrow>
                bind (log_line Error (''Failed to connect to Arduino: '' @ text)) (\<lambda>_. raise e)
            | _ \<Rightarrow> raise e)"

text \<open>The fields that \<open>__init__\<close> sets, in a state with any trace.\<close>

definition ui_fields_set :: "ui \<Rightarrow> bool" where
  "ui_fields_set s =
     (positions s = zip servo_names [50, 50, 50, 50, 50, 50, 50] \<and>
      servo_commands s = zip servo_names [''G'', ''T'', ''B'', ''U'', ''E'', ''L'', ''R''] \<and>
      current_servo s = ''head_rotation'' \<and> step_size s = 5)"

text \<open>\<open>__init__\<close> after its first statement.\<close>

definition init_rest :: "link \<Rightarrow> (ui, unit) prog" where
  "init_rest lk =
     block [
       modify (\<lambda>s. s\<lparr>positions :=
         [(''head_rotation'', 50),
          (''neck_top'', 50),
          (''neck_bottom'', 50),
          (''eye_right'', 50),
          (''eye_left'', 50),
          (''arm_left'', 50),
          (''arm_right'', 50)]\<rparr>),
       modify (\<lambda>s. s\<lparr>servo_commands :=
         [(''head_rotation'', ''G''),
          (''neck_top'', ''T''),
          (''neck_bottom'', ''B''),
          (''eye_right'', ''U''),
          (''eye_left'', ''E''),
          (''arm_left'', ''L''),
          (''arm_right'', ''R'')]\<rparr>),
       modify (\<lambda>s. s\<lparr>current_servo := ''head_rotation''\<rparr>),
       modify (\<lambda>s. s\<lparr>step_size := 5\<rparr>),
       print_instructions,
       emit SaveTerminal,
       test_connection lk]"

section \<open>The text of a command\<close>

lemma digit_char_is_digit: "d < 10 \<Longrightarrow> is_digit (digit_char d)"
proof -
  assume "d < 10"
  then have "d \<in> {0,1,2,3,4,5,6,7,8,9}" by auto
  then show ?thesis by (auto simp: is_digit_def digit_char_def)
qed

lemma digit_val_digit_char: "d < 10 \<Longrightarrow> digit_val (digit_char d) = int d"
proof -
  assume "d < 10"
  then have "d \<in> {0,1,2,3,4,5,6,7,8,9}" by auto
  then show ?thesis by (auto simp: digit_val_def digit_char_def)
qed

lemma digit_char_zero: "d < 10 \<Longrightarrow> (digit_char d = CHR ''0'') = (d = 0)"
proof -
  assume "d < 10"
  then have "d \<in> {0,1,2,3,4,5,6,7,8,9}" by auto
  then show ?thesis by (auto simp: digit_char_def)
qed

lemma digits_nonempty: "digits n \<noteq> []"
  by (subst digits.simps) simp

lemma digits_all_digit: "list_all is_digit (digits n)"
proof (induction n rule: digits.induct)
  case (1 n)
  show ?case
  proof (cases "n < 10")
    case True
    then show ?thesis by (subst digits.simps) (simp add: digit_char_is_digit)
  next
    case False
    with 1 show ?thesis by (subst digits.simps) (simp add: digit_char_is_digit)
  qed
qed

lemma digits_hd_zero: "(hd (digits n) = CHR ''0'') = (n = 0)"
proof (induction n rule: digits.induct)
  case (1 n)
  show ?case
  proof (cases "n < 10")
    case True
    then show ?thesis by (subst digits.simps) (simp add: digit_char_zero)
  next
    case False
    then have "n div 10 \<noteq> 0" by simp
    with 1 False show ?thesis
      by (subst digits.simps) (simp add: digits_nonempty)
  qed
qed

lemma digits_value: "foldl (\<lambda>a c. 10 * a + digit_val c) 0 (digits n) = int n"
proof (induction n rule: digits.induct)
  case (1 n)
  show ?case
  proof (cases "n < 10")
    case True
    then show ?thesis by (subst digits.simps) (simp add: digit_val_digit_char)
  next
    case False
    have split: "10 * int (n div 10) + int (n mod 10) = int n"
      by presburger
    from 1 False have "foldl (\<lambda>a c. 10 * a + digit_val c) 0 (digits (n div 10)) = int (n div 10)"
      by simp
    with False split show ?thesis
      by (subst digits.simps) (simp add: digit_val_digit_char)
  qed
qed

lemma ref_parse_nat_digits: "ref_parse_nat (digits n) = Some (int n)"
  by (simp add: ref_parse_nat_def digits_nonempty digits_all_digit digits_value)

lemma digits_hd_not_minus: "hd (digits n) \<noteq> CHR ''-''"
proof -
  have "is_digit (hd (digits n))"
    using digits_all_digit [of n] digits_nonempty [of n]
    by (cases "digits n") simp_all
  then show ?thesis by (auto simp: is_digit_def)
qed

text \<open>
  Claim C7.  For every command symbol and every integer value (so for every symbol of the
  table and every value of its range), the text of the command is the symbol, then the
  decimal digits of the value, with a minus sign in front if it is negative and with no
  leading zero, then one newline; and the reference decoder gets the symbol and the value
  back from it.
\<close>

theorem command_text_roundtrip:
  "command_text [c] v =
     c # (if v < 0 then ''-'' else []) @ digits (nat \<bar>v\<bar>) @ [CHR 0x0A]
   \<and> digits (nat \<bar>v\<bar>) \<noteq> []
   \<and> list_all is_digit (digits (nat \<bar>v\<bar>))
   \<and> (hd (digits (nat \<bar>v\<bar>)) = CHR ''0'') = (v = 0)
   \<and> ref_decode (command_text [c] v) = Some (c, v)"
proof -
  have shape: "command_text [c] v =
     c # (if v < 0 then ''-'' else []) @ digits (nat \<bar>v\<bar>) @ [CHR 0x0A]"
    by (simp add: command_text_def py_str_int_def abs_if)
  have dec: "ref_decode (command_text [c] v) = Some (c, v)"
  proof (cases "v < 0")
    case True
    then show ?thesis
      by (simp add: shape ref_decode_def abs_if ref_parse_nat_digits butlast_append digits_nonempty)
  next
    case False
    then show ?thesis
      using digits_hd_not_minus [of "nat v"]
      by (simp add: shape ref_decode_def abs_if ref_parse_nat_digits butlast_append digits_nonempty)
  qed
  show ?thesis
    using shape dec digits_nonempty digits_all_digit digits_hd_zero [of "nat \<bar>v\<bar>"]
    by (simp del: abs_if) 
qed

theorem command_text_roundtrip_witness:
  "command_text ''Y'' (- 25) = ''Y-25\<newline>'' \<and> ref_decode ''Y-25\<newline>'' = Some (CHR ''Y'', - 25)
   \<and> command_text ''G'' 100 = ''G100\<newline>'' \<and> ref_decode ''G100\<newline>'' = Some (CHR ''G'', 100)"
proof -
  have a: "command_text ''Y'' (- 25) = ''Y-25\<newline>''" by code_simp
  have b: "command_text ''G'' 100 = ''G100\<newline>''" by code_simp
  show ?thesis
    using command_text_roundtrip [of "CHR ''Y''" "- 25"] command_text_roundtrip [of "CHR ''G''" 100] a b
    by simp
qed

section \<open>Rounding stays within bounds\<close>

lemma bit_length_nonneg: "0 \<le> bit_length n"
  by (induction n rule: bit_length.induct) (subst bit_length.simps, simp)

lemma bit_length_mono: "n \<le> m \<Longrightarrow> bit_length n \<le> bit_length m"
proof (induction m arbitrary: n rule: bit_length.induct)
  case (1 m)
  show ?case
  proof (cases "n \<le> 0")
    case True
    then have "bit_length n = 0" by (subst bit_length.simps) simp
    then show ?thesis by (simp add: bit_length_nonneg)
  next
    case False
    with "1.prems" have m: "\<not> m \<le> 0" by simp
    from "1.prems" have "n div 2 \<le> m div 2" by (simp add: zdiv_mono1)
    with "1.IH" m have "bit_length (n div 2) \<le> bit_length (m div 2)" by simp
    with False m show ?thesis
      by (subst bit_length.simps, subst (2) bit_length.simps) simp
  qed
qed

lemma bit_length_double: "0 < m \<Longrightarrow> bit_length (2 * m) = 1 + bit_length m"
  by (subst bit_length.simps) simp

lemma bit_length_pow2_mult: "0 < d \<Longrightarrow> bit_length (2 ^ k * d) = int k + bit_length d"
proof (induction k)
  case 0
  then show ?case by simp
next
  case (Suc k)
  then have "0 < 2 ^ k * d" by simp
  then have "bit_length (2 * (2 ^ k * d)) = 1 + bit_length (2 ^ k * d)"
    by (rule bit_length_double)
  with Suc show ?case by (simp add: mult.assoc)
qed

lemma bit_length_128: "0 < d \<Longrightarrow> bit_length (128 * d) = 7 + bit_length d"
  using bit_length_pow2_mult [of d 7] by simp

lemma ilog2_le_7:
  assumes "0 < x" "x \<le> 100"
  shows "ilog2 x \<le> 7"
proof -
  obtain n d where q: "quotient_of x = (n, d)" by (cases "quotient_of x")
  then have d: "0 < d" by (rule quotient_of_denom_pos)
  from q have x: "x = of_int n / of_int d" by (rule quotient_of_div)
  from assms(2) d have "of_int n \<le> (100::rat) * of_int d"
    by (simp add: x pos_divide_le_eq)
  then have "(of_int n :: rat) \<le> of_int (100 * d)" by simp
  then have "n \<le> 100 * d" by (simp only: of_int_le_iff)
  with d have "n \<le> 128 * d" by simp
  then have "bit_length n \<le> bit_length (128 * d)" by (rule bit_length_mono)
  with d have "bit_length n - bit_length d \<le> 7" by (simp add: bit_length_128)
  then show ?thesis by (simp add: ilog2_def q Let_def)
qed

lemma pow2_nonpos: "e \<le> 0 \<Longrightarrow> pow2 e = 1 / 2 ^ nat (- e)"
  by (simp add: pow2_def)

lemma round_half_even_le: "x \<le> of_int N \<Longrightarrow> round_half_even x \<le> N"
proof -
  assume le: "x \<le> of_int N"
  then have f: "\<lfloor>x\<rfloor> \<le> N" by (simp add: floor_le_iff) 
  show ?thesis
  proof (cases "\<lfloor>x\<rfloor> = N")
    case True
    have "of_int \<lfloor>x\<rfloor> \<le> x" by simp
    with True le have "x = of_int N" by simp
    then show ?thesis by (simp add: round_half_even_def Let_def)
  next
    case False
    with f have "\<lfloor>x\<rfloor> + 1 \<le> N" by simp
    then show ?thesis by (simp add: round_half_even_def Let_def)
  qed
qed

lemma round_half_even_nonneg: "0 \<le> x \<Longrightarrow> 0 \<le> round_half_even x"
proof -
  assume "0 \<le> x"
  then have "0 \<le> \<lfloor>x\<rfloor>" by simp
  then show ?thesis by (simp add: round_half_even_def Let_def)
qed

lemma round_binary64_bound:
  assumes "\<bar>x\<bar> \<le> 100"
  shows "\<exists>q. round_binary64 x = Finite q \<and> \<bar>q\<bar> \<le> 100"
proof (cases "x = 0")
  case True
  then show ?thesis by (simp add: round_binary64_def)
next
  case False
  define a where "a = \<bar>x\<bar>"
  define e where "e = max (ilog2 a - 52) (- 1074)"
  define m where "m = nat (- e)"
  define y where "y = of_int (round_half_even (a / pow2 e)) * pow2 e"
  from False have a: "0 < a" "a \<le> 100" using assms by (simp_all add: a_def)
  then have "ilog2 a \<le> 7" by (rule ilog2_le_7)
  then have e: "e \<le> 0" by (simp add: e_def)
  then have p: "pow2 e = 1 / 2 ^ m" by (simp add: pow2_nonpos m_def)
  have scaled: "a / pow2 e = a * 2 ^ m" by (simp add: p)
  from a have "a * 2 ^ m \<le> 100 * 2 ^ m" by simp
  then have "a / pow2 e \<le> of_int (100 * 2 ^ m)" by (simp add: scaled)
  then have hi: "round_half_even (a / pow2 e) \<le> 100 * 2 ^ m" by (rule round_half_even_le)
  from a have "0 \<le> a / pow2 e" by (simp add: scaled)
  then have lo: "0 \<le> round_half_even (a / pow2 e)" by (rule round_half_even_nonneg)
  from hi have "(of_int (round_half_even (a / pow2 e)) :: rat) \<le> of_int (100 * 2 ^ m)"
    by (simp only: of_int_le_iff)
  then have "y \<le> of_int (100 * 2 ^ m) * (1 / 2 ^ m)"
    unfolding y_def p by (intro mult_right_mono) simp_all
  then have y_hi: "y \<le> 100" by simp
  from lo have y_lo: "0 \<le> y" by (simp add: y_def p)
  from y_hi have small: "\<not> 2 ^ 1024 \<le> y" by simp
  have "round_binary64 x = Finite (if 0 < x then y else - y)"
    using False small by (simp add: round_binary64_def Let_def a_def e_def y_def)
  with y_lo y_hi show ?thesis by auto
qed

lemma trunc_toward_zero_bound:
  assumes "\<bar>q\<bar> \<le> 100"
  shows "\<bar>trunc_toward_zero q\<bar> \<le> 100"
proof -
  from assms have lo: "- 100 \<le> q" and hi: "q \<le> 100" by (simp_all add: abs_le_iff)
  from lo have "\<lfloor>- 100 :: rat\<rfloor> \<le> \<lfloor>q\<rfloor>" by (rule floor_mono)
  then have f_lo: "- 100 \<le> \<lfloor>q\<rfloor>" by simp
  from hi have "\<lfloor>q\<rfloor> \<le> \<lfloor>100 :: rat\<rfloor>" by (rule floor_mono)
  then have f_hi: "\<lfloor>q\<rfloor> \<le> 100" by simp
  from lo have "\<lceil>- 100 :: rat\<rceil> \<le> \<lceil>q\<rceil>" by (rule ceiling_mono)
  then have c_lo: "- 100 \<le> \<lceil>q\<rceil>" by simp
  from hi have "\<lceil>q\<rceil> \<le> \<lceil>100 :: rat\<rceil>" by (rule ceiling_mono)
  then have c_hi: "\<lceil>q\<rceil> \<le> 100" by simp
  show ?thesis
  proof (cases "0 \<le> q")
    case True
    then have "trunc_toward_zero q = \<lfloor>q\<rfloor>" by (simp add: trunc_toward_zero_def)
    with f_lo f_hi show ?thesis by linarith
  next
    case False
    then have "trunc_toward_zero q = \<lceil>q\<rceil>" by (simp add: trunc_toward_zero_def)
    with c_lo c_hi show ?thesis by linarith
  qed
qed

lemma py_mul_float_int_bound:
  assumes "\<bar>l\<bar> \<le> 1" "0 \<le> ms" "ms \<le> 100"
  shows "\<exists>q. py_mul_float_int (Finite l) ms = Inr (Finite q) \<and> \<bar>trunc_toward_zero q\<bar> \<le> 100"
proof -
  from assms(2,3) have "\<bar>of_int ms :: rat\<bar> \<le> 100" by simp
  then obtain m' where m': "round_binary64 (of_int ms) = Finite m'" "\<bar>m'\<bar> \<le> 100"
    using round_binary64_bound by blast
  have "\<bar>l * m'\<bar> = \<bar>l\<bar> * \<bar>m'\<bar>" by (rule abs_mult)
  also have "\<dots> \<le> 1 * 100" using assms(1) m'(2) by (intro mult_mono) simp_all
  finally have "\<bar>l * m'\<bar> \<le> 100" by simp
  then obtain q where q: "round_binary64 (l * m') = Finite q" "\<bar>q\<bar> \<le> 100"
    using round_binary64_bound by blast
  have "py_mul_float_int (Finite l) ms = Inr (Finite q)"
    by (simp add: py_mul_float_int_def py_float_of_int_def m' q)
  with q(2) show ?thesis by (simp add: trunc_toward_zero_bound)
qed

lemma round_binary64_100: "round_binary64 100 = Finite 100"
  by (simp add: round_binary64_def ilog2_def bit_length.simps pow2_def round_half_even_def Let_def)
lemma round_binary64_50: "round_binary64 50 = Finite 50"
  by (simp add: round_binary64_def ilog2_def bit_length.simps pow2_def round_half_even_def Let_def)
lemma round_binary64_25: "round_binary64 25 = Finite 25"
  by (simp add: round_binary64_def ilog2_def bit_length.simps pow2_def round_half_even_def Let_def)
lemma round_binary64_m25: "round_binary64 (- 25) = Finite (- 25)"
  by (simp add: round_binary64_def ilog2_def bit_length.simps pow2_def round_half_even_def Let_def)
lemma round_binary64_500: "round_binary64 500 = Finite 500"
  by (simp add: round_binary64_def ilog2_def bit_length.simps pow2_def round_half_even_def Let_def)
lemma round_binary64_m300: "round_binary64 (- 300) = Finite (- 300)"
  by (simp add: round_binary64_def ilog2_def bit_length.simps pow2_def round_half_even_def Let_def)

section \<open>The bridge node\<close>

lemma bind_ret: "bind (ret x) f = f x"
  by (simp add: bind_def ret_def)

lemma bind_raise: "bind (raise e) f = raise e"
  by (simp add: bind_def raise_def)

lemma bind_lift_Inr: "bind (lift (Inr x)) f = f x"
  by (simp add: bind_def lift_def)

lemma bind_lift_Inl: "bind (lift (Inl e)) f = raise e"
  by (simp add: bind_def lift_def raise_def)

lemma bind_get_field: "bind (get_field g) f s = f (g s) s"
  by (simp add: bind_def get_field_def)

lemma serial_returns:
  "fails lk (calls s) = None \<Longrightarrow>
   serial lk op s = (Inr (), s\<lparr>trace := trace s @ [Did op], calls := calls s + 1\<rparr>)"
  by (simp add: serial_def serial_call_def bind_def ret_def Let_def)

lemma serial_raises:
  "fails lk (calls s) = Some text \<Longrightarrow>
   serial lk op s =
     (Inl (SerialException text), s\<lparr>trace := trace s @ [Failed op], calls := calls s + 1\<rparr>)"
  by (simp add: serial_def serial_call_def bind_def ret_def Let_def)

lemma written_append: "written (xs @ ys) = written xs @ written ys"
  by (induction xs rule: written.induct) simp_all

lemma send_drive_cases:
  "send_drive lk l a s =
     (case fails lk (calls s) of
        Some text \<Rightarrow>
          (Inr (), s\<lparr>trace := trace s @ [Failed (Write (command_text ''Y'' l)),
                                          Log Error (''Serial write error: '' @ text)],
                     calls := calls s + 1\<rparr>)
      | None \<Rightarrow>
          (case fails lk (calls s + 1) of
             Some text \<Rightarrow>
               (Inr (), s\<lparr>trace := trace s @ [Did (Write (command_text ''Y'' l)), Sleep 10,
                                               Failed (Write (command_text ''X'' a)),
                                               Log Error (''Serial write error: '' @ text)],
                          calls := calls s + 2\<rparr>)
           | None \<Rightarrow>
               (Inr (), s\<lparr>trace := trace s @ [Did (Write (command_text ''Y'' l)), Sleep 10,
                                               Did (Write (command_text ''X'' a)),
                                               Log Debug (''Sent: Y'' @ py_str_int l @ '', X'' @ py_str_int a)],
                          calls := calls s + 2\<rparr>)))"
  by (simp add: send_drive_def try_except_def bind_def serial_def serial_call_def ret_def
      sleep_def log_line_def emit_def raise_def Let_def split: option.splits)

lemma cmd_vel_callback_unfold:
  "cmd_vel_callback lk msg s =
     (case py_mul_float_int (linear_x msg) (max_speed s) of
        Inl e \<Rightarrow> (Inl e, s)
      | Inr lx \<Rightarrow>
         (case py_int_of_float lx of
            Inl e \<Rightarrow> (Inl e, s)
          | Inr lin \<Rightarrow>
             (case py_mul_float_int (angular_z msg) (max_speed s) of
                Inl e \<Rightarrow> (Inl e, s)
              | Inr az \<Rightarrow>
                 (case py_int_of_float az of
                    Inl e \<Rightarrow> (Inl e, s)
                  | Inr ang \<Rightarrow>
                      send_drive lk (max (- 100) (min 100 lin)) (max (- 100) (min 100 ang)) s))))"
  by (simp add: cmd_vel_callback_def send_drive_def bind_def get_field_def lift_def Let_def
      split: sum.splits)

lemma str_100: "py_str_int 100 = ''100''" by code_simp
lemma str_0: "py_str_int 0 = ''0''" by code_simp
lemma str_25: "py_str_int 25 = ''25''" by code_simp
lemma str_m25: "py_str_int (- 25) = ''-25''" by code_simp
lemma str_m100: "py_str_int (- 100) = ''-100''" by code_simp

lemma mul_1_100: "py_mul_float_int (Finite 1) 100 = Inr (Finite 100)"
  by (simp add: py_mul_float_int_def py_float_of_int_def round_binary64_100)

lemma round_binary64_0: "round_binary64 0 = Finite 0"
  by (simp add: round_binary64_def)

lemma mul_0_100: "py_mul_float_int (Finite 0) 100 = Inr (Finite 0)"
  by (simp add: py_mul_float_int_def py_float_of_int_def round_binary64_100 round_binary64_0)

lemma mul_mhalf_50: "py_mul_float_int (Finite (- (1 / 2))) 50 = Inr (Finite (- 25))"
  by (simp add: py_mul_float_int_def py_float_of_int_def round_binary64_50 round_binary64_m25)

lemma mul_half_50: "py_mul_float_int (Finite (1 / 2)) 50 = Inr (Finite 25)"
  by (simp add: py_mul_float_int_def py_float_of_int_def round_binary64_50 round_binary64_25)

lemma mul_5_100: "py_mul_float_int (Finite 5) 100 = Inr (Finite 500)"
  by (simp add: py_mul_float_int_def py_float_of_int_def round_binary64_100 round_binary64_500)

lemma mul_m3_100: "py_mul_float_int (Finite (- 3)) 100 = Inr (Finite (- 300))"
  by (simp add: py_mul_float_int_def py_float_of_int_def round_binary64_100 round_binary64_m300)

lemma trunc_of_int: "trunc_toward_zero (of_int n) = n"
  by (simp add: trunc_toward_zero_def)

lemma trunc_numeral [simp]: "trunc_toward_zero (numeral k) = numeral k"
  "trunc_toward_zero (- numeral k) = - numeral k" "trunc_toward_zero 0 = 0"
  by (simp_all add: trunc_toward_zero_def)

lemma ahead_run:
  "cmd_vel_callback link_up ahead (bridge_new\<lparr>max_speed := 100\<rparr>) =
     (Inr (), \<lparr>trace = [Did (Write ''Y100\<newline>''), Sleep 10, Did (Write ''X0\<newline>''),
                         Log Debug ''Sent: Y100, X0''],
               calls = 2, max_speed = 100\<rparr>)"
  by (simp add: cmd_vel_callback_unfold ahead_def bridge_new_def mul_1_100 mul_0_100
      py_int_of_float_def send_drive_cases link_up_def command_text_def str_100 str_0)

text \<open>
  Claim C1, as the code has it.  For a velocity command with \<open>linear.x\<close> and
  \<open>angular.z\<close> in \<open>[-1, 1]\<close> and \<open>max_speed\<close> in \<open>[0, 100]\<close>, on a link whose next two
  calls return, the callback returns normally after exactly these events: the write of
  \<open>Y\<close> with \<open>int(linear.x * max_speed)\<close>, a delay of 10 ms, the write of \<open>X\<close> with
  \<open>int(angular.z * max_speed)\<close>, and a debug line.  Both ints are the float products
  truncated toward zero; they lie in \<open>[-100, 100]\<close>, so that the clamp leaves them as
  they are.  There is one delay, between the two writes, and none after the second.
\<close>

theorem cmd_vel_two_writes:
  assumes msg: "linear_x msg = Finite l" "angular_z msg = Finite a"
    and range: "\<bar>l\<bar> \<le> 1" "\<bar>a\<bar> \<le> 1" "0 \<le> max_speed s" "max_speed s \<le> 100"
    and up: "fails lk (calls s) = None" "fails lk (calls s + 1) = None"
  shows "\<exists>pl pa.
     py_mul_float_int (Finite l) (max_speed s) = Inr (Finite pl) \<and>
     py_mul_float_int (Finite a) (max_speed s) = Inr (Finite pa) \<and>
     \<bar>trunc_toward_zero pl\<bar> \<le> 100 \<and> \<bar>trunc_toward_zero pa\<bar> \<le> 100 \<and>
     cmd_vel_callback lk msg s =
       (Inr (),
        s\<lparr>trace := trace s @
             [Did (Write (command_text ''Y'' (max (- 100) (min 100 (trunc_toward_zero pl))))),
              Sleep 10,
              Did (Write (command_text ''X'' (max (- 100) (min 100 (trunc_toward_zero pa))))),
              Log Debug (''Sent: Y'' @ py_str_int (max (- 100) (min 100 (trunc_toward_zero pl)))
                         @ '', X'' @ py_str_int (max (- 100) (min 100 (trunc_toward_zero pa))))],
           calls := calls s + 2\<rparr>)"
proof -
  from range obtain pl where pl: "py_mul_float_int (Finite l) (max_speed s) = Inr (Finite pl)"
      "\<bar>trunc_toward_zero pl\<bar> \<le> 100"
    using py_mul_float_int_bound [of l "max_speed s"] by blast
  from range obtain pa where pa: "py_mul_float_int (Finite a) (max_speed s) = Inr (Finite pa)"
      "\<bar>trunc_toward_zero pa\<bar> \<le> 100"
    using py_mul_float_int_bound [of a "max_speed s"] by blast
  have "cmd_vel_callback lk msg s =
      send_drive lk (max (- 100) (min 100 (trunc_toward_zero pl)))
        (max (- 100) (min 100 (trunc_toward_zero pa))) s"
    by (simp add: cmd_vel_callback_unfold msg pl pa py_int_of_float_def)
  with up pl pa show ?thesis
    by (simp add: send_drive_cases)
qed

text \<open>
  The two examples of the claim: \<open>(1.0, 0.0)\<close> at \<open>max_speed = 100\<close> writes \<open>Y100\<close>
  then \<open>X0\<close>, and \<open>(-0.5, 0.5)\<close> at \<open>max_speed = 50\<close> writes \<open>Y-25\<close> then \<open>X25\<close>.
\<close>

theorem cmd_vel_two_writes_witness:
  "cmd_vel_callback link_up ahead (bridge_new\<lparr>max_speed := 100\<rparr>) =
     (Inr (), \<lparr>trace = [Did (Write ''Y100\<newline>''), Sleep 10, Did (Write ''X0\<newline>''),
                         Log Debug ''Sent: Y100, X0''],
               calls = 2, max_speed = 100\<rparr>) \<and>
   cmd_vel_callback link_up back_and_turn (bridge_new\<lparr>max_speed := 50\<rparr>) =
     (Inr (), \<lparr>trace = [Did (Write ''Y-25\<newline>''), Sleep 10, Did (Write ''X25\<newline>''),
                         Log Debug ''Sent: Y-25, X25''],
               calls = 2, max_speed = 50\<rparr>)"
proof -
  have one: "cmd_vel_callback link_up ahead (bridge_new\<lparr>max_speed := 100\<rparr>) =
     (Inr (), \<lparr>trace = [Did (Write ''Y100\<newline>''), Sleep 10, Did (Write ''X0\<newline>''),
                         Log Debug ''Sent: Y100, X0''],
               calls = 2, max_speed = 100\<rparr>)"
    using cmd_vel_two_writes [of ahead 1 0 "bridge_new\<lparr>max_speed := 100\<rparr>" link_up]
    by (simp add: ahead_def bridge_new_def link_up_def mul_1_100 mul_0_100
        command_text_def str_100 str_0)
  have two: "cmd_vel_callback link_up back_and_turn (bridge_new\<lparr>max_speed := 50\<rparr>) =
     (Inr (), \<lparr>trace = [Did (Write ''Y-25\<newline>''), Sleep 10, Did (Write ''X25\<newline>''),
                         Log Debug ''Sent: Y-25, X25''],
               calls = 2, max_speed = 50\<rparr>)"
    using cmd_vel_two_writes [of back_and_turn "- 1 / 2" "1 / 2" "bridge_new\<lparr>max_speed := 50\<rparr>" link_up]
    by (simp add: back_and_turn_def bridge_new_def link_up_def mul_mhalf_50 mul_half_50
        command_text_def str_25 str_m25)
  from one two show ?thesis by simp
qed

text \<open>
  Claim C1 as stated fails where it says that each of the two writes is followed by the
  delay: the write of \<open>X0\<close> is followed by the debug line and the return.
\<close>

theorem cmd_vel_no_delay_after_turn_write:
  "trace (snd (cmd_vel_callback link_up ahead (bridge_new\<lparr>max_speed := 100\<rparr>))) =
     [Did (Write ''Y100\<newline>''), Sleep 10, Did (Write ''X0\<newline>''), Log Debug ''Sent: Y100, X0'']
   \<and> \<not> each_write_then_sleep
         (trace (snd (cmd_vel_callback link_up ahead (bridge_new\<lparr>max_speed := 100\<rparr>))))"
  by (simp add: ahead_run)


lemma emitsI:
  "(\<And>s. \<exists>evs. trace (snd (m s)) = trace s @ evs \<and> list_all P evs) \<Longrightarrow> emits P m"
  by (simp add: emits_def)

lemma emitsD:
  "emits P m \<Longrightarrow> \<exists>evs. trace (snd (m s)) = trace s @ evs \<and> list_all P evs"
  by (simp add: emits_def)

lemma emits_ret: "emits P (ret x)"
  by (simp add: emits_def ret_def)

lemma emits_raise: "emits P (raise e)"
  by (simp add: emits_def raise_def)

lemma emits_lift: "emits P (lift r)"
  by (simp add: emits_def lift_def)

lemma emits_get_field: "emits P (get_field g)"
  by (simp add: emits_def get_field_def)

lemma emits_modify: "(\<And>s. trace (f s) = trace s) \<Longrightarrow> emits P (modify f)"
  by (simp add: emits_def modify_def)

lemma emits_emit: "P ev \<Longrightarrow> emits P (emit ev)"
  by (simp add: emits_def emit_def)

lemma emits_sleep: "P (Sleep ms) \<Longrightarrow> emits P (sleep ms)"
  by (simp add: sleep_def emits_emit)

lemma emits_log_line: "P (Log lvl text) \<Longrightarrow> emits P (log_line lvl text)"
  by (simp add: log_line_def emits_emit)

lemma emits_serial_call: "P (Did op) \<Longrightarrow> P (Failed op) \<Longrightarrow> emits P (serial_call lk op)"
  by (simp add: emits_def serial_call_def Let_def split: option.splits)

lemma emits_bind:
  assumes m: "emits P m" and f: "\<And>x. emits P (f x)"
  shows "emits P (bind m f)"
proof (rule emitsI)
  fix s
  obtain r s' where ms: "m s = (r, s')" by (cases "m s")
  from emitsD [OF m, of s] ms obtain evs where evs: "trace s' = trace s @ evs" "list_all P evs"
    by auto
  show "\<exists>evs. trace (snd (bind m f s)) = trace s @ evs \<and> list_all P evs"
  proof (cases r)
    case (Inl e)
    with ms evs show ?thesis by (simp add: bind_def)
  next
    case (Inr x)
    from emitsD [OF f, of x s'] obtain evs' where
      evs': "trace (snd (f x s')) = trace s' @ evs'" "list_all P evs'" by auto
    with ms evs Inr show ?thesis by (simp add: bind_def)
  qed
qed

lemma emits_serial: "P (Did op) \<Longrightarrow> P (Failed op) \<Longrightarrow> emits P (serial lk op)"
  by (simp add: serial_def emits_bind emits_serial_call emits_ret)

lemma emits_block_Nil: "emits P (block [])"
  by (simp add: emits_ret)

lemma emits_block_Cons: "emits P m \<Longrightarrow> emits P (block ms) \<Longrightarrow> emits P (block (m # ms))"
  by (simp add: emits_bind)


lemma emits_try_except:
  assumes m: "emits P m" and h: "\<And>e. emits P (h e)"
  shows "emits P (try_except m h)"
proof (rule emitsI)
  fix s
  obtain r s' where ms: "m s = (r, s')" by (cases "m s")
  from emitsD [OF m, of s] ms obtain evs where evs: "trace s' = trace s @ evs" "list_all P evs"
    by auto
  show "\<exists>evs. trace (snd (try_except m h s)) = trace s @ evs \<and> list_all P evs"
  proof (cases r)
    case (Inr x)
    with ms evs show ?thesis by (simp add: try_except_def)
  next
    case (Inl e)
    from emitsD [OF h, of e s'] obtain evs' where
      evs': "trace (snd (h e s')) = trace s' @ evs'" "list_all P evs'" by auto
    with ms evs Inl show ?thesis by (simp add: try_except_def)
  qed
qed

lemma emits_try_finally:
  assumes m: "emits P m" and f: "emits P f"
  shows "emits P (try_finally m f)"
proof (rule emitsI)
  fix s
  obtain r s' where ms: "m s = (r, s')" by (cases "m s")
  from emitsD [OF m, of s] ms obtain evs where evs: "trace s' = trace s @ evs" "list_all P evs"
    by auto
  obtain r' s'' where fs: "f s' = (r', s'')" by (cases "f s'")
  from emitsD [OF f, of s'] fs obtain evs' where
    evs': "trace s'' = trace s' @ evs'" "list_all P evs'" by auto
  from ms fs evs evs' show "\<exists>evs. trace (snd (try_finally m f s)) = trace s @ evs \<and> list_all P evs"
    by (cases r') (simp_all add: try_finally_def)
qed

lemmas emits_intros =
  emits_block_Nil emits_block_Cons emits_bind emits_try_except emits_try_finally
  emits_ret emits_raise emits_lift emits_get_field emits_modify emits_emit emits_sleep
  emits_log_line emits_serial emits_serial_call

lemma emits_send_drive: "emits bridge_event (send_drive lk l a)"
proof -
  have handler: "emits bridge_event
      (case e of
         SerialException text \<Rightarrow> log_line Error (''Serial write error: '' @ text)
       | _ \<Rightarrow> raise e)" for e
    by (cases e) (simp_all add: emits_log_line emits_raise bridge_event_def)
  show ?thesis
    unfolding send_drive_def
    by (intro emits_intros handler) (simp_all add: bridge_event_def)
qed

lemma emits_cmd_vel_callback: "emits bridge_event (cmd_vel_callback lk msg)"
proof (rule emitsI)
  fix s
  show "\<exists>evs. trace (snd (cmd_vel_callback lk msg s)) = trace s @ evs \<and> list_all bridge_event evs"
    using emitsD [OF emits_send_drive]
    by (simp add: cmd_vel_callback_unfold split: sum.splits)
qed

lemma emits_spin: "emits bridge_event (spin lk inputs)"
proof (induction inputs)
  case Nil
  show ?case by (simp add: emits_ret)
next
  case (Cons i inputs)
  then show ?case
    by (cases i) (simp_all add: emits_bind emits_cmd_vel_callback emits_raise)
qed

lemma emits_ArduinoBridge_init: "emits bridge_event (ArduinoBridge_init lk p)"
proof -
  have handler: "emits bridge_event
      (case e of
         SerialException text \<Rightarrow>
           bind (log_line Error (''Failed to connect to Arduino: '' @ text)) (\<lambda>_. raise e)
       | _ \<Rightarrow> raise e)" for e
    by (cases e) (simp_all add: emits_bind emits_log_line emits_raise bridge_event_def)
  show ?thesis
    unfolding ArduinoBridge_init_def
    by (intro emits_intros handler) (simp_all add: bridge_event_def)
qed

lemma emits_bridge_main: "emits bridge_event (bridge_main lk p inputs rclpy_ok)"
proof -
  have handler: "emits bridge_event
      (case e of KeyboardInterrupt \<Rightarrow> ret () | _ \<Rightarrow> emit (Print (ErrorText e)))" for e
    by (cases e) (simp_all add: emits_ret emits_emit bridge_event_def)
  have closing: "emits bridge_event (if rclpy_ok then emit RclpyShutdown else ret ())"
    by (simp add: emits_ret emits_emit bridge_event_def)
  show ?thesis
    unfolding bridge_main_def
    by (intro emits_block_Nil emits_block_Cons emits_try_finally emits_try_except emits_emit
          emits_ArduinoBridge_init emits_spin handler closing)
       (simp_all add: bridge_event_def)
qed

lemma bridge_main_events:
  "list_all bridge_event (trace (snd (bridge_main lk p inputs rclpy_ok bridge_new)))"
  using emitsD [OF emits_bridge_main, of lk p inputs rclpy_ok bridge_new]
  by (auto simp: bridge_new_def)

lemma ArduinoBridge_init_cases:
  "ArduinoBridge_init lk p s =
     (case fails lk (calls s) of
        None \<Rightarrow>
          (Inr (), s\<lparr>trace := trace s @
                       [Did (OpenPort (serial_port p) (baud_rate p)), Sleep 2000,
                        Log Info (''Connected to Arduino on '' @ serial_port p),
                        Log Info ''Arduino bridge node started''],
                     calls := calls s + 1, max_speed := max_speed_param p\<rparr>)
      | Some text \<Rightarrow>
          (Inl (SerialException text),
           s\<lparr>trace := trace s @
                  [Failed (OpenPort (serial_port p) (baud_rate p)),
                   Log Error (''Failed to connect to Arduino: '' @ text)],
               calls := calls s + 1, max_speed := max_speed_param p\<rparr>))"
  by (simp add: ArduinoBridge_init_def try_except_def bind_def serial_def serial_call_def ret_def
      sleep_def log_line_def emit_def raise_def modify_def Let_def split: option.splits)

lemma destroy_node_cases:
  "ArduinoBridge_destroy_node lk s =
     (case fails lk (calls s) of
        Some text \<Rightarrow>
          (Inr (), s\<lparr>trace := trace s @ [Failed (Write ''Y0\<newline>''), SuperDestroyNode],
                     calls := calls s + 1\<rparr>)
      | None \<Rightarrow>
         (case fails lk (calls s + 1) of
            Some text \<Rightarrow>
              (Inr (), s\<lparr>trace := trace s @ [Did (Write ''Y0\<newline>''), Failed (Write ''X0\<newline>''),
                                              SuperDestroyNode],
                         calls := calls s + 2\<rparr>)
          | None \<Rightarrow>
             (case fails lk (calls s + 2) of
                Some text \<Rightarrow>
                  (Inr (), s\<lparr>trace := trace s @ [Did (Write ''Y0\<newline>''), Did (Write ''X0\<newline>''),
                                                  Failed ClosePort, SuperDestroyNode],
                             calls := calls s + 3\<rparr>)
              | None \<Rightarrow>
                  (Inr (), s\<lparr>trace := trace s @ [Did (Write ''Y0\<newline>''), Did (Write ''X0\<newline>''),
                                                  Did ClosePort, SuperDestroyNode],
                             calls := calls s + 3\<rparr>))))"
  by (simp add: ArduinoBridge_destroy_node_def try_except_def bind_def serial_def serial_call_def
      ret_def emit_def Let_def split: option.splits)

text \<open>
  Claim C8, as the code has it.  If one of the two stop writes of \<open>destroy_node\<close> raises,
  then \<open>destroy_node\<close> still returns normally and runs \<open>super().destroy_node()\<close>; the
  events before that are the writes up to the one that raised and nothing else: no log
  line, and no second attempt at a stop write.
\<close>

theorem destroy_node_stop_failure:
  assumes "fails lk (calls s) \<noteq> None \<or> fails lk (calls s + 1) \<noteq> None"
  shows "\<exists>evs. ArduinoBridge_destroy_node lk s =
            (Inr (), s\<lparr>trace := trace s @ evs @ [SuperDestroyNode],
                       calls := calls s + length evs\<rparr>) \<and>
          (evs = [Failed (Write ''Y0\<newline>'')] \<or>
           evs = [Did (Write ''Y0\<newline>''), Failed (Write ''X0\<newline>'')])"
proof (cases "fails lk (calls s)")
  case (Some why)
  let ?evs = "[Failed (Write ''Y0\<newline>'')]"
  from Some show ?thesis
    by (intro exI [of _ ?evs]) (simp add: destroy_node_cases)
next
  case None
  let ?evs = "[Did (Write ''Y0\<newline>''), Failed (Write ''X0\<newline>'')]"
  from assms None obtain why where "fails lk (calls s + 1) = Some why" by auto
  with None show ?thesis
    by (intro exI [of _ ?evs]) (simp add: destroy_node_cases)
qed

theorem destroy_node_stop_failure_witness:
  "fails (link_down_at 1) (calls bridge_new + 1) \<noteq> None \<and>
   ArduinoBridge_destroy_node (link_down_at 1) bridge_new =
     (Inr (), \<lparr>trace = [Did (Write ''Y0\<newline>''), Failed (Write ''X0\<newline>''), SuperDestroyNode],
               calls = 2, max_speed = 0\<rparr>)"
  using destroy_node_stop_failure [of "link_down_at 1" bridge_new]
  by (simp add: destroy_node_cases link_down_at_def bridge_new_def)

text \<open>
  Claim C8 as stated fails where it says that the failure is logged and that the device
  handle is still released: when the first stop write raises, the trace has no log line
  and no \<open>close\<close>.
\<close>

theorem destroy_node_failure_silent_and_open:
  "ArduinoBridge_destroy_node (link_down_at 0) bridge_new =
     (Inr (), \<lparr>trace = [Failed (Write ''Y0\<newline>''), SuperDestroyNode], calls = 1, max_speed = 0\<rparr>)
   \<and> \<not> list_ex is_log (trace (snd (ArduinoBridge_destroy_node (link_down_at 0) bridge_new)))
   \<and> Did ClosePort \<notin> set (trace (snd (ArduinoBridge_destroy_node (link_down_at 0) bridge_new)))"
  by (simp add: destroy_node_cases link_down_at_def bridge_new_def)

text \<open>
  Claim C2 fails on the code.  \<open>main\<close> of the bridge never calls \<open>destroy_node\<close>: after a
  command that left the drive at \<open>Y100\<close>, an interrupt in \<open>spin\<close> ends \<open>main\<close> with
  \<open>rclpy.shutdown()\<close> only; no \<open>Y0\<close> is written and the port is not closed.
\<close>

theorem bridge_main_interrupt_no_stop:
  "bridge_main link_up usb0 [Deliver ahead, Sigint] True bridge_new =
     (Inr (),
      \<lparr>trace =
         [RclpyInit, Did (OpenPort ''/dev/ttyUSB0'' 115200), Sleep 2000,
          Log Info ''Connected to Arduino on /dev/ttyUSB0'',
          Log Info ''Arduino bridge node started'',
          Did (Write ''Y100\<newline>''), Sleep 10, Did (Write ''X0\<newline>''),
          Log Debug ''Sent: Y100, X0'', RclpyShutdown],
       calls = 3, max_speed = 100\<rparr>)
   \<and> ''Y0\<newline>'' \<notin> set (written (trace (snd
         (bridge_main link_up usb0 [Deliver ahead, Sigint] True bridge_new))))
   \<and> Did ClosePort \<notin> set (trace (snd
         (bridge_main link_up usb0 [Deliver ahead, Sigint] True bridge_new)))"
proof -
  have run: "bridge_main link_up usb0 [Deliver ahead, Sigint] True bridge_new =
     (Inr (),
      \<lparr>trace =
         [RclpyInit, Did (OpenPort ''/dev/ttyUSB0'' 115200), Sleep 2000,
          Log Info ''Connected to Arduino on /dev/ttyUSB0'',
          Log Info ''Arduino bridge node started'',
          Did (Write ''Y100\<newline>''), Sleep 10, Did (Write ''X0\<newline>''),
          Log Debug ''Sent: Y100, X0'', RclpyShutdown],
       calls = 3, max_speed = 100\<rparr>)"
    by (simp add: bridge_main_def try_finally_def try_except_def bind_def emit_def ret_def
        raise_def ArduinoBridge_init_cases cmd_vel_callback_unfold send_drive_cases
        mul_1_100 mul_0_100 py_int_of_float_def ahead_def usb0_def link_up_def bridge_new_def
        command_text_def str_100 str_0)
  show ?thesis by (simp add: run)
qed

lemma too_fast_run:
  "cmd_vel_callback link_up too_fast (bridge_new\<lparr>max_speed := 100\<rparr>) =
     (Inr (), \<lparr>trace = [Did (Write ''Y100\<newline>''), Sleep 10, Did (Write ''X-100\<newline>''),
                         Log Debug ''Sent: Y100, X-100''],
               calls = 2, max_speed = 100\<rparr>)"
  by (simp add: cmd_vel_callback_unfold too_fast_def bridge_new_def mul_5_100 mul_m3_100
      py_int_of_float_def send_drive_cases link_up_def command_text_def str_100 str_m100)

text \<open>
  Claim C9.  For every velocity command, every \<open>max_speed\<close> and every behaviour of the
  link, the callback hands to \<open>serial.write\<close> nothing, or \<open>Y\<close> with an int in
  \<open>[-100, 100]\<close>, or that and then \<open>X\<close> with an int in \<open>[-100, 100]\<close>.
\<close>

theorem cmd_vel_written_in_range:
  "\<exists>evs. trace (snd (cmd_vel_callback lk msg s)) = trace s @ evs \<and>
     (written evs = [] \<or>
      (\<exists>l a. - 100 \<le> l \<and> l \<le> 100 \<and> - 100 \<le> a \<and> a \<le> 100 \<and>
         (written evs = [command_text ''Y'' l] \<or>
          written evs = [command_text ''Y'' l, command_text ''X'' a])))"
proof -
  have drive: "\<exists>evs. trace (snd (send_drive lk l a s)) = trace s @ evs \<and>
      (written evs = [command_text ''Y'' l] \<or>
       written evs = [command_text ''Y'' l, command_text ''X'' a])" for l a
    by (simp add: send_drive_cases split: option.splits)
  show ?thesis
  proof (cases "\<exists>lin ang. cmd_vel_callback lk msg s =
      send_drive lk (max (- 100) (min 100 lin)) (max (- 100) (min 100 ang)) s")
    case True
    then obtain lin ang where eq: "cmd_vel_callback lk msg s =
      send_drive lk (max (- 100) (min 100 lin)) (max (- 100) (min 100 ang)) s"
      by blast
    from drive [of "max (- 100) (min 100 lin)" "max (- 100) (min 100 ang)"]
    obtain evs where evs: "trace (snd (cmd_vel_callback lk msg s)) = trace s @ evs"
      "written evs = [command_text ''Y'' (max (- 100) (min 100 lin))] \<or>
       written evs = [command_text ''Y'' (max (- 100) (min 100 lin)),
                      command_text ''X'' (max (- 100) (min 100 ang))]"
      unfolding eq by blast
    have "- 100 \<le> max (- 100) (min 100 lin)" "max (- 100) (min 100 lin) \<le> 100"
         "- 100 \<le> max (- 100) (min 100 ang)" "max (- 100) (min 100 ang) \<le> 100"
      by simp_all
    with evs show ?thesis by blast
  next
    case False
    then have "snd (cmd_vel_callback lk msg s) = s"
      by (auto simp: cmd_vel_callback_unfold split: sum.splits)
    then show ?thesis by simp
  qed
qed

theorem cmd_vel_written_in_range_witness:
  "written (trace (snd (cmd_vel_callback link_up too_fast (bridge_new\<lparr>max_speed := 100\<rparr>)))) =
     [''Y100\<newline>'', ''X-100\<newline>'']"
  using cmd_vel_written_in_range [of link_up too_fast "bridge_new\<lparr>max_speed := 100\<rparr>"]
  by (simp add: too_fast_run)


section \<open>The keyboard node\<close>

lemma plus_Suc_numerals:
  "n + 3 = Suc (Suc (Suc n))" "n + 4 = Suc (Suc (Suc (Suc n)))"
  "n + 5 = Suc (Suc (Suc (Suc (Suc n))))"
  by simp_all

lemma send_servo_command_run:
  assumes "map_of (servo_commands s) name = Some c" "map_of (positions s) name = Some v"
  shows "send_servo_command lk name s =
     (case send_outcome lk (calls s) name c v of (r, evs, k) \<Rightarrow> (r, advance evs k s))"
  using assms
  by (simp add: send_servo_command_def send_outcome_def advance_def dict_get_def
      get_field_def lift_def try_except_def bind_def serial_def serial_call_def
      serial_in_waiting_def serial_readline_decode_def ret_def raise_def
      sleep_def log_line_def emit_def Let_def plus_Suc_numerals split: option.splits)

lemma send_outcome_result:
  "fst (send_outcome lk n name c v) = Inr () \<or>
   fst (send_outcome lk n name c v) = Inl UnicodeDecodeError"
  by (simp add: send_outcome_def Let_def split: option.splits)

lemma send_outcome_written:
  "written (fst (snd (send_outcome lk n name c v))) =
     (if fails lk n = None then [command_text c v] else [])"
  by (simp add: send_outcome_def Let_def split: option.splits)

lemma send_outcome_failed:
  assumes "send_outcome lk n name c v = (r, evs, k)" "list_ex is_failed evs"
  shows "r = Inr () \<and> (\<exists>why. last evs = Log Error (''Serial error: '' @ why))"
  using assms by (auto simp: send_outcome_def Let_def split: option.splits if_splits)

lemma send_outcome_decodable:
  assumes "\<And>n. readline_at lk n \<noteq> None"
  shows "fst (send_outcome lk n name c v) = Inr ()"
  using assms [of "n + 4"]
  by (auto simp: send_outcome_def Let_def split: option.splits)

lemma map_of_dict_set_same: "map_of (dict_set d k v) k = Some v"
  by (induction d) auto

lemma map_of_dict_set_other: "k' \<noteq> k \<Longrightarrow> map_of (dict_set d k v) k' = map_of d k'"
  by (induction d) auto

lemma dict_keys_dict_set:
  "k \<in> set (dict_keys d) \<Longrightarrow> dict_keys (dict_set d k v) = dict_keys d"
  by (induction d) (force simp: dict_keys_def)+

lemma dict_values_dict_set:
  "list_all P (map snd d) \<Longrightarrow> P v \<Longrightarrow> list_all P (map snd (dict_set d k v))"
  by (induction d) auto

lemma map_of_dict_keys:
  "k \<in> set (dict_keys d) \<Longrightarrow> \<exists>v. map_of d k = Some v \<and> v \<in> set (map snd d)"
  by (induction d) (auto simp: dict_keys_def)

lemma ui_inv_lookup:
  assumes "ui_inv s" "name \<in> set servo_names"
  shows "\<exists>v c. map_of (positions s) name = Some v \<and> 0 \<le> v \<and> v \<le> 100 \<and>
           map_of (servo_commands s) name = Some c"
proof -
  from assms have "name \<in> set (dict_keys (positions s))" by (simp add: ui_inv_def)
  then obtain v where v: "map_of (positions s) name = Some v" "v \<in> set (map snd (positions s))"
    using map_of_dict_keys by fastforce
  from assms(1) have "list_all (\<lambda>v. 0 \<le> v \<and> v \<le> 100) (map snd (positions s))"
    by (simp add: ui_inv_def)
  with v(2) have range: "0 \<le> v \<and> v \<le> 100" by (auto simp: list_all_iff)
  from assms have "\<exists>c. map_of (servo_commands s) name = Some c"
    by (auto simp: ui_inv_def servo_names_def)
  with v(1) range show ?thesis by blast
qed

lemma ui_inv_advance: "ui_inv (advance evs k s) = ui_inv s"
  by (simp add: ui_inv_def advance_def)

lemma ui_inv_set_position:
  assumes "ui_inv s" "name \<in> set servo_names" "0 \<le> v" "v \<le> 100"
  shows "ui_inv (s\<lparr>positions := dict_set (positions s) name v\<rparr>)"
  using assms by (simp add: ui_inv_def dict_keys_dict_set dict_values_dict_set)

lemma set_position_run:
  "set_position name v s = (Inr (), s\<lparr>positions := dict_set (positions s) name v\<rparr>)"
  by (simp add: set_position_def modify_def)

lemma print_status_run:
  "map_of (positions s) (current_servo s) = Some v \<Longrightarrow>
   print_status s = (Inr (), advance [Print Status] 0 s)"
  by (simp add: print_status_def bind_def get_field_def lift_def dict_get_def emit_def advance_def)

lemma update_current_run:
  "map_of (positions s) (current_servo s) = Some v \<Longrightarrow>
   update_current f s =
     (Inr (), s\<lparr>positions := dict_set (positions s) (current_servo s) (f s v)\<rparr>)"
  by (simp add: update_current_def bind_def get_field_def lift_def dict_get_def set_position_run)

lemma send_current_run:
  assumes "map_of (servo_commands s) (current_servo s) = Some c"
    "map_of (positions s) (current_servo s) = Some v"
  shows "send_current lk s =
     (case send_outcome lk (calls s) (current_servo s) c v of
        (r, evs, k) \<Rightarrow> (r, advance evs k s))"
  using send_servo_command_run [OF assms]
  by (simp add: send_current_def bind_def get_field_def)

lemma adjust_run:
  assumes inv: "ui_inv s"
    and f: "\<And>v. 0 \<le> v \<Longrightarrow> v \<le> 100 \<Longrightarrow> 0 \<le> f s v \<and> f s v \<le> 100"
  shows "\<exists>v r evs k.
     map_of (positions s) (current_servo s) = Some v \<and> 0 \<le> v \<and> v \<le> 100 \<and>
     adjust lk f s =
       (r, advance evs k (s\<lparr>positions := dict_set (positions s) (current_servo s) (f s v)\<rparr>)) \<and>
     (r = Inr Continue \<or> r = Inl UnicodeDecodeError) \<and>
     ((\<forall>n. readline_at lk n \<noteq> None) \<longrightarrow> r = Inr Continue)"
proof -
  from inv have cur: "current_servo s \<in> set servo_names" by (simp add: ui_inv_def)
  from ui_inv_lookup [OF inv cur] obtain v c where
    v: "map_of (positions s) (current_servo s) = Some v" "0 \<le> v" "v \<le> 100" and
    c: "map_of (servo_commands s) (current_servo s) = Some c" by blast
  define s1 where "s1 = s\<lparr>positions := dict_set (positions s) (current_servo s) (f s v)\<rparr>"
  have upd: "update_current f s = (Inr (), s1)"
    by (simp add: update_current_run [OF v(1)] s1_def)
  have c1: "map_of (servo_commands s1) (current_servo s1) = Some c"
    and v1: "map_of (positions s1) (current_servo s1) = Some (f s v)"
    by (simp_all add: s1_def c map_of_dict_set_same)
  obtain r evs k where out: "send_outcome lk (calls s1) (current_servo s1) c (f s v) = (r, evs, k)"
    by (cases "send_outcome lk (calls s1) (current_servo s1) c (f s v)")
  have send: "send_current lk s1 = (r, advance evs k s1)"
    by (simp add: send_current_run [OF c1 v1] out)
  from send_outcome_result [of lk "calls s1" "current_servo s1" c "f s v"] out
  have r: "r = Inr () \<or> r = Inl UnicodeDecodeError" by simp
  have decodable: "r = Inr ()" if "\<forall>n. readline_at lk n \<noteq> None"
    using send_outcome_decodable [of lk "calls s1" "current_servo s1" c "f s v"] out that
    by simp
  have v2: "map_of (positions (advance evs k s1)) (current_servo (advance evs k s1)) = Some (f s v)"
    using v1 by (simp add: advance_def)
  have status: "print_status (advance evs k s1) = (Inr (), advance [Print Status] 0 (advance evs k s1))"
    by (rule print_status_run [OF v2])
  have both: "advance [Print Status] 0 (advance evs k s1) = advance (evs @ [Print Status]) k s1"
    by (simp add: advance_def)
  from r show ?thesis
  proof
    assume "r = Inr ()"
    with upd send status both have "adjust lk f s = (Inr Continue, advance (evs @ [Print Status]) k s1)"
      by (simp add: adjust_def bind_def ret_def)
    with v show ?thesis unfolding s1_def by blast
  next
    assume bad: "r = Inl UnicodeDecodeError"
    with upd send have "adjust lk f s = (Inl UnicodeDecodeError, advance evs k s1)"
      by (simp add: adjust_def bind_def)
    moreover have "\<not> (\<forall>n. readline_at lk n \<noteq> None)"
    proof
      assume "\<forall>n. readline_at lk n \<noteq> None"
      then have "r = Inr ()" by (rule decodable)
      with bad show False by simp
    qed
    ultimately show ?thesis using v unfolding s1_def by blast
  qed
qed

lemma preset_step_run:
  assumes inv: "ui_inv s" and name: "servo \<in> set servo_names"
  shows "\<exists>c. map_of (servo_commands s) servo = Some c \<and>
     preset_step lk servo pos s =
       (case send_outcome lk (calls s) servo c pos of
          (r, evs, k) \<Rightarrow>
            (r, advance (evs @ (case r of Inr _ \<Rightarrow> [Sleep 150] | Inl _ \<Rightarrow> [])) k
                  (s\<lparr>positions := dict_set (positions s) servo pos\<rparr>)))"
proof -
  from ui_inv_lookup [OF inv name] obtain c where
    c: "map_of (servo_commands s) servo = Some c" by blast
  define s1 where "s1 = s\<lparr>positions := dict_set (positions s) servo pos\<rparr>"
  have c1: "map_of (servo_commands s1) servo = Some c"
    and v1: "map_of (positions s1) servo = Some pos"
    by (simp_all add: s1_def c map_of_dict_set_same)
  have "preset_step lk servo pos s =
       (case send_outcome lk (calls s) servo c pos of
          (r, evs, k) \<Rightarrow>
            (r, advance (evs @ (case r of Inr _ \<Rightarrow> [Sleep 150] | Inl _ \<Rightarrow> [])) k s1))"
    using send_servo_command_run [OF c1 v1, of lk]
    by (auto simp: preset_step_def bind_def set_position_run s1_def [symmetric] sleep_def emit_def
        ret_def advance_def split: prod.splits sum.splits)
       (simp_all add: s1_def)
  with c show ?thesis unfolding s1_def by blast
qed

lemma connect_cases:
  "connect lk p s =
     (case fails lk (calls s) of
        Some why \<Rightarrow>
          (Inl (SerialException why),
           advance [Failed (OpenPort (serial_port p) (baud_rate p)),
                    Log Error (''Failed to connect to Arduino: '' @ why)] 1 s)
      | None \<Rightarrow>
     (case fails lk (calls s + 1) of
        Some why \<Rightarrow>
          (Inl (SerialException why),
           advance [Did (OpenPort (serial_port p) (baud_rate p)), Sleep 2000,
                    Failed ResetInputBuffer,
                    Log Error (''Failed to connect to Arduino: '' @ why)] 2 s)
      | None \<Rightarrow>
     (case fails lk (calls s + 2) of
        Some why \<Rightarrow>
          (Inl (SerialException why),
           advance [Did (OpenPort (serial_port p) (baud_rate p)), Sleep 2000,
                    Did ResetInputBuffer, Failed ResetOutputBuffer,
                    Log Error (''Failed to connect to Arduino: '' @ why)] 3 s)
      | None \<Rightarrow>
          (Inr (),
           advance [Did (OpenPort (serial_port p) (baud_rate p)), Sleep 2000,
                    Did ResetInputBuffer, Did ResetOutputBuffer,
                    Log Info (''Connected to Arduino on '' @ serial_port p)] 3 s))))"
  by (simp add: connect_def advance_def try_except_def bind_def serial_def serial_call_def
      ret_def raise_def sleep_def log_line_def emit_def Let_def plus_Suc_numerals
      split: option.splits)

lemma ui_fields_set_inv: "ui_fields_set s \<Longrightarrow> ui_inv s"
  by (simp add: ui_fields_set_def ui_inv_def dict_keys_def servo_names_def)

lemma test_connection_frame:
  "positions (snd (test_connection lk s)) = positions s \<and>
   servo_commands (snd (test_connection lk s)) = servo_commands s \<and>
   current_servo (snd (test_connection lk s)) = current_servo s \<and>
   step_size (snd (test_connection lk s)) = step_size s"
  by (simp add: test_connection_def bind_def serial_def serial_call_def
      serial_in_waiting_def serial_readline_decode_def ret_def raise_def
      sleep_def log_line_def emit_def Let_def split: option.splits)

lemma emits_serial_in_waiting:
  "P (Did InWaiting) \<Longrightarrow> P (Failed InWaiting) \<Longrightarrow> emits P (serial_in_waiting lk)"
  by (simp add: serial_in_waiting_def emits_bind emits_serial_call emits_ret)

lemma emits_serial_readline_decode:
  assumes "P (Did Readline)" "P (Failed Readline)"
  shows "emits P (serial_readline_decode lk)"
proof -
  have decode: "emits P (case readline_at lk n of None \<Rightarrow> raise UnicodeDecodeError | Some text \<Rightarrow> ret text)"
    for n
    by (cases "readline_at lk n") (simp_all add: emits_raise emits_ret)
  show ?thesis
    unfolding serial_readline_decode_def
    by (intro emits_bind emits_serial_call assms decode)
qed

lemma emits_test_connection: "emits (\<lambda>ev. True) (test_connection lk)"
proof -
  have tail: "emits (\<lambda>ev. True)
      (if n \<noteq> 0
       then bind (serial_readline_decode lk) (\<lambda>line.
              log_line Info (''Arduino echo: '' @ py_strip line))
       else log_line Warn ''No response from Arduino - check connection!'')" for n :: nat
    by (simp add: emits_bind emits_serial_readline_decode emits_log_line)
  show ?thesis
    unfolding test_connection_def
    by (intro emits_intros emits_serial_in_waiting tail) simp_all
qed

lemma ServoKeyboard_init_split:
  "ServoKeyboard_init lk p = bind (connect lk p) (\<lambda>_. init_rest lk)"
  by (simp add: ServoKeyboard_init_def connect_def init_rest_def)

lemma bind_ret_unit: "bind m (\<lambda>_. ret ()) = (m :: ('s, unit) prog)"
  by (auto simp: bind_def ret_def fun_eq_iff split: prod.splits sum.splits)

lemma init_rest_run:
  "init_rest lk s =
     test_connection lk
       (s\<lparr>positions := zip servo_names [50, 50, 50, 50, 50, 50, 50],
          servo_commands := zip servo_names [''G'', ''T'', ''B'', ''U'', ''E'', ''L'', ''R''],
          current_servo := ''head_rotation'', step_size := 5,
          trace := trace s @ [Print Instructions, SaveTerminal]\<rparr>)"
  by (simp only: init_rest_def block.simps bind_ret_unit)
     (simp add: bind_def modify_def print_instructions_def emit_def servo_names_def)

lemma init_rest_fields: "ui_fields_set (snd (init_rest lk s))"
  by (simp add: init_rest_run test_connection_frame ui_fields_set_def)

lemma emits_init_rest: "emits (\<lambda>ev. True) (init_rest lk)"
  unfolding init_rest_def print_instructions_def
  by (intro emits_intros emits_test_connection) simp_all

lemma ServoKeyboard_init_success:
  assumes "ServoKeyboard_init lk p s = (Inr (), s')"
  shows "ui_fields_set s' \<and>
    (\<exists>evs. trace s' = trace s @
       [Did (OpenPort (serial_port p) (baud_rate p)), Sleep 2000,
        Did ResetInputBuffer, Did ResetOutputBuffer] @ evs)"
proof -
  obtain r1 s1 where c: "connect lk p s = (r1, s1)" by (cases "connect lk p s")
  with assms have r1: "r1 = Inr ()" and rest: "init_rest lk s1 = (Inr (), s')"
    by (auto simp: ServoKeyboard_init_split bind_def split: sum.splits)
  from c r1 have s1: "trace s1 = trace s @
       [Did (OpenPort (serial_port p) (baud_rate p)), Sleep 2000,
        Did ResetInputBuffer, Did ResetOutputBuffer,
        Log Info (''Connected to Arduino on '' @ serial_port p)]"
    by (auto simp: connect_cases advance_def split: option.splits)
  from emitsD [OF emits_init_rest, of lk s1] rest obtain evs where
    "trace s' = trace s1 @ evs" by auto
  with s1 have "trace s' = trace s @
       [Did (OpenPort (serial_port p) (baud_rate p)), Sleep 2000,
        Did ResetInputBuffer, Did ResetOutputBuffer] @
       (Log Info (''Connected to Arduino on '' @ serial_port p) # evs)" by simp
  moreover from init_rest_fields [of lk s1] rest have "ui_fields_set s'" by simp
  ultimately show ?thesis by blast
qed

lemma ServoKeyboard_init_failure:
  assumes "fst (ServoKeyboard_init lk p s) \<noteq> Inr ()"
  shows "(\<exists>evs. trace (snd (ServoKeyboard_init lk p s)) = trace s @
            [Did (OpenPort (serial_port p) (baud_rate p)), Sleep 2000,
             Did ResetInputBuffer, Did ResetOutputBuffer] @ evs) \<or>
         (\<exists>evs. trace (snd (ServoKeyboard_init lk p s)) = trace s @ evs \<and> written evs = [])"
proof -
  obtain r1 s1 where c: "connect lk p s = (r1, s1)" by (cases "connect lk p s")
  show ?thesis
  proof (cases r1)
    case (Inl e)
    with c have "ServoKeyboard_init lk p s = (Inl e, s1)"
      by (simp add: ServoKeyboard_init_split bind_def)
    moreover from c Inl have "\<exists>evs. trace s1 = trace s @ evs \<and> written evs = []"
      by (auto simp: connect_cases advance_def split: option.splits)
    ultimately show ?thesis by simp
  next
    case (Inr u)
    with c have s1: "trace s1 = trace s @
       [Did (OpenPort (serial_port p) (baud_rate p)), Sleep 2000,
        Did ResetInputBuffer, Did ResetOutputBuffer,
        Log Info (''Connected to Arduino on '' @ serial_port p)]"
      by (auto simp: connect_cases advance_def split: option.splits)
    from c Inr have run: "ServoKeyboard_init lk p s = init_rest lk s1"
      by (simp add: ServoKeyboard_init_split bind_def)
    from emitsD [OF emits_init_rest, of lk s1] obtain evs where
      "trace (snd (init_rest lk s1)) = trace s1 @ evs" by auto
    with s1 run have "trace (snd (ServoKeyboard_init lk p s)) = trace s @
       [Did (OpenPort (serial_port p) (baud_rate p)), Sleep 2000,
        Did ResetInputBuffer, Did ResetOutputBuffer] @
       (Log Info (''Connected to Arduino on '' @ serial_port p) # evs)" by simp
    then show ?thesis by blast
  qed
qed

end
